theory Spec2Isabelle
  imports Main
begin

section \<open>Event-policy actions of spaces-design (src/js/actions/policy.js)\<close>

text \<open>
  The module installs and removes lists of event-propagation policies. Every command
  works on two pieces of mutable state: the policy store of the flux instance
  (\<^verbatim>\<open>this.flux.store("policy")\<close>) and Photoshop, which is reached through the adapter
  (\<^verbatim>\<open>adapter/ps/ui\<close>). The model passes both explicitly. A promise returned by a command
  is modelled by its settled outcome: \<open>Inl err\<close> for a rejection (or an exception thrown
  by the command), \<open>Inr v\<close> for a fulfilment with \<open>v\<close>.
\<close>

subsection \<open>Values of the adapter and of the event-policy model\<close>

text \<open>A JavaScript \<^verbatim>\<open>Error\<close>, identified by its message.\<close>

datatype error = Error string

text \<open>\<^verbatim>\<open>PolicyStore.eventKind\<close>: the category of a policy list.\<close>

datatype eventKind = KEYBOARD | POINTER

text \<open>
  \<^verbatim>\<open>adapterUI.policyAction\<close>, \<^verbatim>\<open>adapterOS.eventKind\<close> and
  \<^verbatim>\<open>adapterUI.keyboardPropagationMode\<close>: the members that this module reads, and one
  more member each so that the choice made by the code is visible. The mode is prefixed
  with \<open>MODE\<close> because its members share their names with those of the policy action.
\<close>

datatype policyAction = ALWAYS_PROPAGATE | NEVER_PROPAGATE

datatype osEventKind = KEY_DOWN | KEY_UP

datatype keyboardPropagationMode = MODE_ALWAYS_PROPAGATE | MODE_NEVER_PROPAGATE

text \<open>
  The \<^verbatim>\<open>modifiers\<close> argument, \<^verbatim>\<open>{shift: boolean=, control: boolean=, alt: boolean=,
  command: boolean=}\<close>: every field is optional. The \<^verbatim>\<open>key\<close> argument is
  \<^verbatim>\<open>number|string\<close>: a key code or a key character.
\<close>

record modifiers =
  shift :: "bool option"
  control :: "bool option"
  alt :: "bool option"
  command :: "bool option"

datatype key = KeyCode int | KeyChar string

text \<open>
  \<^verbatim>\<open>new KeyboardEventPolicy(policyAction, eventKind, modifiers, key)\<close>: the constructor of
  \<^verbatim>\<open>js/models/eventpolicy\<close> is a datatype constructor with the arguments in the order of
  the call.
\<close>

datatype keyboardEventPolicy =
  KeyboardEventPolicy policyAction osEventKind modifiers key

text \<open>The descriptor handed to \<^verbatim>\<open>setKeyboardPropagationMode\<close>.\<close>

record policyDescriptor =
  defaultMode :: keyboardPropagationMode

subsection \<open>The collaborators, as parameters\<close>

text \<open>
  The adapter functions return promises. Each is a function of the state of Photoshop
  \<open>'h\<close> that yields the settled outcome and the new state; what Photoshop did before it
  rejected stays done.
\<close>

record ('r, 'h) adapterUI =
  setKeyboardEventPropagationPolicy :: "'r list \<Rightarrow> 'h \<Rightarrow> (error + unit) \<times> 'h"
  setPointerEventPropagationPolicy :: "'r list \<Rightarrow> 'h \<Rightarrow> (error + unit) \<times> 'h"
  setKeyboardPropagationMode :: "policyDescriptor \<Rightarrow> 'h \<Rightarrow> (error + unit) \<times> 'h"

text \<open>
  The three methods of the policy store that the actions call, over a store state \<open>'s\<close>.
  The source calls \<^verbatim>\<open>removePolicyList\<close> inside \<^verbatim>\<open>try\<close>/\<^verbatim>\<open>catch\<close>, so that method may throw:
  it yields \<open>Inl err\<close> then, with whatever state it left behind.
\<close>

record ('s, 'r) policyStore =
  addPolicyList :: "eventKind \<Rightarrow> 'r list \<Rightarrow> 's \<Rightarrow> int \<times> 's"
  removePolicyList :: "eventKind \<Rightarrow> int \<Rightarrow> 's \<Rightarrow> (error + bool) \<times> 's"
  getMasterPolicyList :: "eventKind \<Rightarrow> 's \<Rightarrow> 'r list"

text \<open>The state a command runs in: the store of the flux instance and Photoshop.\<close>

record ('s, 'h) flux =
  store :: 's
  photoshop :: 'h

subsection \<open>Numbers in messages\<close>

text \<open>
  \<^verbatim>\<open>"No policies found for id: " + id\<close> converts the number \<^verbatim>\<open>id\<close> to a string. For
  an integer in the safe range of JavaScript, up to \<^verbatim>\<open>Number.MAX_SAFE_INTEGER\<close>
  \<open>= 2\<^sup>5\<^sup>3 - 1\<close> in magnitude, the conversion prints the integer in plain decimal, with
  a leading minus sign when negative. Outside that range it prints the shortest digits
  that round to the same floating-point number, padded with zeros (\<open>2\<^sup>6\<^sup>0\<close> gives
  \<^verbatim>\<open>1152921504606847000\<close>), and from \<open>10\<^sup>2\<^sup>1\<close> on in exponent form (\<^verbatim>\<open>1e+21\<close>). That
  part is floating-point arithmetic of the engine; it is the parameter \<open>largeToString\<close>
  here, and nothing is assumed of it.
\<close>

definition digitChar :: "nat \<Rightarrow> char" where
  "digitChar d = ''0123456789'' ! d"

fun natToString :: "nat \<Rightarrow> string" where
  "natToString n =
     (if n < 10 then [digitChar n] else natToString (n div 10) @ [digitChar (n mod 10)])"

declare natToString.simps [simp del]

definition MAX_SAFE_INTEGER :: int where
  "MAX_SAFE_INTEGER = 9007199254740991"

definition safeInteger :: "int \<Rightarrow> bool" where
  "safeInteger i \<longleftrightarrow> - MAX_SAFE_INTEGER \<le> i \<and> i \<le> MAX_SAFE_INTEGER"

definition numberToString :: "(int \<Rightarrow> string) \<Rightarrow> int \<Rightarrow> string" where
  "numberToString largeToString i =
     (if safeInteger i
      then (if i < 0 then CHR ''-'' # natToString (nat (- i)) else natToString (nat i))
      else largeToString i)"

subsection \<open>The commands\<close>

text \<open>
  \<^verbatim>\<open>_addPolicies(kind, policies)\<close>. The \<^verbatim>\<open>catch\<close> handler removes the list again,
  ignores an exception of that removal, and rethrows the error of the adapter;
  \<^verbatim>\<open>.return(policyListID)\<close> replaces the value of a fulfilled promise.
\<close>

definition addPolicies ::
  "('s, 'r) policyStore \<Rightarrow> ('r, 'h) adapterUI \<Rightarrow> eventKind \<Rightarrow> 'r list \<Rightarrow>
     ('s, 'h) flux \<Rightarrow> (error + int) \<times> ('s, 'h) flux" where
  "addPolicies policyStore adapterUI kind policies st =
     (let (policyListID, s1) = addPolicyList policyStore kind policies (store st);
          masterPolicyList = getMasterPolicyList policyStore kind s1;
          commitFn = (if kind = KEYBOARD
                      then setKeyboardEventPropagationPolicy adapterUI
                      else setPointerEventPropagationPolicy adapterUI);
          (settled, h1) = commitFn masterPolicyList (photoshop st)
      in case settled of
           Inl err \<Rightarrow>
             (let (_, s2) = removePolicyList policyStore kind policyListID s1
              in (Inl err, \<lparr>store = s2, photoshop = h1\<rparr>))
         | Inr _ \<Rightarrow> (Inr policyListID, \<lparr>store = s1, photoshop = h1\<rparr>))"

text \<open>
  \<^verbatim>\<open>_removePolicies(kind, id, commit)\<close>, with \<open>id'\<close> for \<^verbatim>\<open>id\<close>. The parameter
  \<^verbatim>\<open>commit\<close> is optional (\<^verbatim>\<open>boolean=\<close>): \<open>None\<close> is the omitted argument,
  \<^verbatim>\<open>undefined\<close>, which the test \<^verbatim>\<open>if (commit)\<close> takes for false. The first parameter
  of the model is the number printing of the engine outside the safe range, which the
  message of the error goes through; the two remove commands pass it on.
\<close>

definition truthy :: "bool option \<Rightarrow> bool" where
  "truthy commit = (case commit of None \<Rightarrow> False | Some b \<Rightarrow> b)"

definition removePolicies ::
  "(int \<Rightarrow> string) \<Rightarrow> ('s, 'r) policyStore \<Rightarrow> ('r, 'h) adapterUI \<Rightarrow> eventKind \<Rightarrow> int \<Rightarrow>
     bool option \<Rightarrow> ('s, 'h) flux \<Rightarrow> (error + unit) \<times> ('s, 'h) flux" where
  "removePolicies largeToString policyStore adapterUI kind id' commit st =
     (case removePolicyList policyStore kind id' (store st) of
        (Inl thrown, s1) \<Rightarrow> (Inl thrown, \<lparr>store = s1, photoshop = photoshop st\<rparr>)
      | (Inr removed, s1) \<Rightarrow>
          if removed then
            if truthy commit then
              (let masterPolicyList = getMasterPolicyList policyStore kind s1;
                   commitFn = (if kind = KEYBOARD
                               then setKeyboardEventPropagationPolicy adapterUI
                               else setPointerEventPropagationPolicy adapterUI);
                   (settled, h1) = commitFn masterPolicyList (photoshop st)
               in (settled, \<lparr>store = s1, photoshop = h1\<rparr>))
            else (Inr (), \<lparr>store = s1, photoshop = photoshop st\<rparr>)
          else (Inl (Error (''No policies found for id: '' @ numberToString largeToString id')),
                \<lparr>store = s1, photoshop = photoshop st\<rparr>))"

definition addKeyboardPoliciesCommand ::
  "('s, 'r) policyStore \<Rightarrow> ('r, 'h) adapterUI \<Rightarrow> 'r list \<Rightarrow>
     ('s, 'h) flux \<Rightarrow> (error + int) \<times> ('s, 'h) flux" where
  "addKeyboardPoliciesCommand policyStore adapterUI policies =
     addPolicies policyStore adapterUI KEYBOARD policies"

definition removeKeyboardPoliciesCommand ::
  "(int \<Rightarrow> string) \<Rightarrow> ('s, 'r) policyStore \<Rightarrow> ('r, 'h) adapterUI \<Rightarrow> int \<Rightarrow>
     bool option \<Rightarrow> ('s, 'h) flux \<Rightarrow> (error + unit) \<times> ('s, 'h) flux" where
  "removeKeyboardPoliciesCommand largeToString policyStore adapterUI id' commit =
     removePolicies largeToString policyStore adapterUI KEYBOARD id' commit"

definition addPointerPoliciesCommand ::
  "('s, 'r) policyStore \<Rightarrow> ('r, 'h) adapterUI \<Rightarrow> 'r list \<Rightarrow>
     ('s, 'h) flux \<Rightarrow> (error + int) \<times> ('s, 'h) flux" where
  "addPointerPoliciesCommand policyStore adapterUI policies =
     addPolicies policyStore adapterUI POINTER policies"

definition removePointerPoliciesCommand ::
  "(int \<Rightarrow> string) \<Rightarrow> ('s, 'r) policyStore \<Rightarrow> ('r, 'h) adapterUI \<Rightarrow> int \<Rightarrow>
     bool option \<Rightarrow> ('s, 'h) flux \<Rightarrow> (error + unit) \<times> ('s, 'h) flux" where
  "removePointerPoliciesCommand largeToString policyStore adapterUI id' commit =
     removePolicies largeToString policyStore adapterUI POINTER id' commit"

text \<open>
  \<^verbatim>\<open>addKeydownPolicyCommand(propagate, key, modifiers)\<close>. The call
  \<^verbatim>\<open>this.transfer(addKeyboardPolicies, [policy], true)\<close> runs the command of the action
  \<^verbatim>\<open>addKeyboardPolicies\<close> on the arguments that follow it; that command has the one
  parameter \<^verbatim>\<open>policies\<close>, so the second argument \<^verbatim>\<open>true\<close> is not read.
\<close>

definition addKeydownPolicyCommand ::
  "('s, keyboardEventPolicy) policyStore \<Rightarrow> (keyboardEventPolicy, 'h) adapterUI \<Rightarrow>
     bool \<Rightarrow> key \<Rightarrow> modifiers \<Rightarrow> ('s, 'h) flux \<Rightarrow> (error + int) \<times> ('s, 'h) flux" where
  "addKeydownPolicyCommand policyStore adapterUI propagate key modifiers =
     (let policyAction = (if propagate then ALWAYS_PROPAGATE else NEVER_PROPAGATE);
          eventKind = KEY_DOWN;
          policy = KeyboardEventPolicy policyAction eventKind modifiers key
      in addKeyboardPoliciesCommand policyStore adapterUI [policy])"

text \<open>\<^verbatim>\<open>beforeStartupCommand()\<close>: it does not touch the store.\<close>

definition beforeStartupCommand ::
  "('r, 'h) adapterUI \<Rightarrow> ('s, 'h) flux \<Rightarrow> (error + unit) \<times> ('s, 'h) flux" where
  "beforeStartupCommand adapterUI st =
     (let policyMode = MODE_NEVER_PROPAGATE;
          policyDescriptor = \<lparr>defaultMode = policyMode\<rparr>;
          (settled, h1) = setKeyboardPropagationMode adapterUI policyDescriptor (photoshop st)
      in (settled, \<lparr>store = store st, photoshop = h1\<rparr>))"

subsection \<open>Observing the calls that reach Photoshop\<close>

text \<open>
  To state which adapter functions a command calls, and with what, an adapter is wrapped
  into one that behaves the same and keeps a log of the calls beside the state of
  Photoshop. The wrapped adapter \<open>ui\<close> is arbitrary, so a statement about
  \<open>recording ui\<close> holds whatever Photoshop answers.
\<close>

datatype 'r adapterCall =
  SetKeyboardEventPropagationPolicy "'r list"
| SetPointerEventPropagationPolicy "'r list"
| SetKeyboardPropagationMode policyDescriptor

definition logged ::
  "'c \<Rightarrow> ('h \<Rightarrow> (error + unit) \<times> 'h) \<Rightarrow> 'c list \<times> 'h \<Rightarrow> (error + unit) \<times> ('c list \<times> 'h)" where
  "logged c f lh = (let (settled, h1) = f (snd lh) in (settled, (fst lh @ [c], h1)))"

definition recording :: "('r, 'h) adapterUI \<Rightarrow> ('r, 'r adapterCall list \<times> 'h) adapterUI" where
  "recording ui =
     \<lparr>setKeyboardEventPropagationPolicy =
        (\<lambda>m. logged (SetKeyboardEventPropagationPolicy m) (setKeyboardEventPropagationPolicy ui m)),
      setPointerEventPropagationPolicy =
        (\<lambda>m. logged (SetPointerEventPropagationPolicy m) (setPointerEventPropagationPolicy ui m)),
      setKeyboardPropagationMode =
        (\<lambda>d. logged (SetKeyboardPropagationMode d) (setKeyboardPropagationMode ui d))\<rparr>"

subsection \<open>The policy store\<close>

text \<open>
  Modelled from the spec: the module \<^verbatim>\<open>js/stores/policy\<close> (PolicyStore) is not among the
  sources. One partition of the store, per category: "a mapping from ListID to PolicyList
  and a per-category next-ID counter" (spec, section 3). The mapping is an association
  list of the registered lists with their IDs.
\<close>

record 'r partition =
  policyLists :: "(int \<times> 'r list) list"
  nextId :: int

text \<open>
  Modelled from the spec: the state of the missing PolicyStore, "process-wide state
  holding, per Category", one partition.
\<close>

record 'r storeState =
  keyboardPartition :: "'r partition"
  pointerPartition :: "'r partition"

text \<open>Modelled from the spec: the partition of the missing PolicyStore a category lives in.\<close>

definition partitionOf :: "eventKind \<Rightarrow> 'r storeState \<Rightarrow> 'r partition" where
  "partitionOf kind s =
     (case kind of KEYBOARD \<Rightarrow> keyboardPartition s | POINTER \<Rightarrow> pointerPartition s)"

text \<open>Modelled from the spec: replacing the partition of a category in the missing PolicyStore.\<close>

definition setPartition :: "eventKind \<Rightarrow> 'r partition \<Rightarrow> 'r storeState \<Rightarrow> 'r storeState" where
  "setPartition kind p s =
     (case kind of
        KEYBOARD \<Rightarrow> s\<lparr>keyboardPartition := p\<rparr>
      | POINTER \<Rightarrow> s\<lparr>pointerPartition := p\<rparr>)"

text \<open>
  Modelled from the spec: the missing PolicyStore as "created once at process/application
  start", with nothing registered; the first ID of a category is 1 (Scenario A).
\<close>

definition initialStore :: "'r storeState" where
  "initialStore =
     \<lparr>keyboardPartition = \<lparr>policyLists = [], nextId = 1\<rparr>,
      pointerPartition = \<lparr>policyLists = [], nextId = 1\<rparr>\<rparr>"

text \<open>
  Modelled from the spec: whether the missing PolicyStore holds a list under an ID in the
  partition of a category.
\<close>

definition registered :: "eventKind \<Rightarrow> int \<Rightarrow> 'r storeState \<Rightarrow> bool" where
  "registered kind i s \<longleftrightarrow> i \<in> fst ` set (policyLists (partitionOf kind s))"

text \<open>
  Modelled from the spec: \<^verbatim>\<open>addPolicyList\<close> of the missing PolicyStore, which "allocates
  the next ID for category, stores rules as a new PolicyList under that ID, returns the
  ID. Never fails".
\<close>

definition PolicyStore_addPolicyList ::
  "eventKind \<Rightarrow> 'r list \<Rightarrow> 'r storeState \<Rightarrow> int \<times> 'r storeState" where
  "PolicyStore_addPolicyList kind rules s =
     (let p = partitionOf kind s; newId = nextId p
      in (newId,
          setPartition kind
            \<lparr>policyLists = policyLists p @ [(newId, rules)], nextId = newId + 1\<rparr> s))"

text \<open>
  Modelled from the spec: \<^verbatim>\<open>removePolicyList\<close> of the missing PolicyStore, which "removes
  the list if present, returns whether it was present. Removing a non-existent ID is not
  an error at this layer: it returns false and leaves the store unchanged".
\<close>

definition PolicyStore_removePolicyList ::
  "eventKind \<Rightarrow> int \<Rightarrow> 'r storeState \<Rightarrow> bool \<times> 'r storeState" where
  "PolicyStore_removePolicyList kind i s =
     (let p = partitionOf kind s
      in if registered kind i s
         then (True,
               setPartition kind (p\<lparr>policyLists := filter (\<lambda>e. fst e \<noteq> i) (policyLists p)\<rparr>) s)
         else (False, s))"

text \<open>
  Modelled from the spec: \<^verbatim>\<open>getMasterPolicyList\<close> of the missing PolicyStore, "the
  concatenation of all currently-registered PolicyLists for that category, in ascending
  ListID order", recomputed at every call.
\<close>

definition PolicyStore_getMasterPolicyList :: "eventKind \<Rightarrow> 'r storeState \<Rightarrow> 'r list" where
  "PolicyStore_getMasterPolicyList kind s =
     concat (map snd (sort_key fst (policyLists (partitionOf kind s))))"

text \<open>
  Modelled from the spec: the missing PolicyStore as the object the actions call. Its
  \<^verbatim>\<open>removePolicyList\<close> never throws.
\<close>

definition PolicyStore :: "('r storeState, 'r) policyStore" where
  "PolicyStore =
     \<lparr>addPolicyList = PolicyStore_addPolicyList,
      removePolicyList =
        (\<lambda>kind i s. let (removed, s1) = PolicyStore_removePolicyList kind i s in (Inr removed, s1)),
      getMasterPolicyList = PolicyStore_getMasterPolicyList\<rparr>"

text \<open>
  Modelled from the spec: the invariant of a partition of the missing PolicyStore. The
  counter is positive; the IDs of the registered lists are positive, distinct, in the order
  of their registration, and all below the counter ("ListIDs are unique within a Category", "counter only
  increases").
\<close>

definition partitionOk :: "'r partition \<Rightarrow> bool" where
  "partitionOk p \<longleftrightarrow>
     0 < nextId p \<and>
     sorted_wrt (<) (map fst (policyLists p)) \<and>
     (\<forall>i \<in> set (map fst (policyLists p)). 0 < i \<and> i < nextId p)"

text \<open>Modelled from the spec: the invariant of the missing PolicyStore, on both partitions.\<close>

definition storeOk :: "'r storeState \<Rightarrow> bool" where
  "storeOk s \<longleftrightarrow> partitionOk (keyboardPartition s) \<and> partitionOk (pointerPartition s)"

text \<open>
  Modelled from the spec: the external install function of a category
  (\<^verbatim>\<open>installKeyboardPolicy\<close>, \<^verbatim>\<open>installPointerPolicy\<close> of section 6), used to say that "the
  external install step" of an operation fails or succeeds.
\<close>

definition installFunction ::
  "('r, 'h) adapterUI \<Rightarrow> eventKind \<Rightarrow> 'r list \<Rightarrow> 'h \<Rightarrow> (error + unit) \<times> 'h" where
  "installFunction ui kind =
     (case kind of
        KEYBOARD \<Rightarrow> setKeyboardEventPropagationPolicy ui
      | POINTER \<Rightarrow> setPointerEventPropagationPolicy ui)"

text \<open>
  Modelled from the spec: the call of the external install function of a category, as an
  entry of the log of a recording adapter.
\<close>

definition installCall :: "eventKind \<Rightarrow> 'r list \<Rightarrow> 'r adapterCall" where
  "installCall kind m =
     (case kind of
        KEYBOARD \<Rightarrow> SetKeyboardEventPropagationPolicy m
      | POINTER \<Rightarrow> SetPointerEventPropagationPolicy m)"

subsection \<open>Sequences of store operations, and what the spec says of their master list\<close>

text \<open>
  Modelled from the spec: an add or a remove on the missing PolicyStore, as an element of
  "sequences of add/remove operations" (section 8).
\<close>

datatype 'r storeOp = AddList eventKind "'r list" | RemoveList eventKind int

text \<open>Modelled from the spec: one operation applied to the missing PolicyStore.\<close>

fun applyOp :: "'r storeOp \<Rightarrow> 'r storeState \<Rightarrow> 'r storeState" where
  "applyOp (AddList kind rules) s = snd (PolicyStore_addPolicyList kind rules s)"
| "applyOp (RemoveList kind i) s = snd (PolicyStore_removePolicyList kind i s)"

text \<open>
  Modelled from the spec: a sequence of operations applied, first to last, to the missing
  PolicyStore as it is at start.
\<close>

definition runOps :: "'r storeOp list \<Rightarrow> 'r storeState" where
  "runOps ops = foldl (\<lambda>s opn. applyOp opn s) initialStore ops"

text \<open>
  The testable property of section 8, stated on the sequence of operations alone, with no
  store: the master list is "the concatenation, in ascending ListID order, of the rule
  sequences of all lists added and not yet removed". The list added at position \<open>p\<close> of
  the sequence received as its ID the number of adds of its category up to and including
  \<open>p\<close> (IDs count from 1 and are never reused); it is still there when no later operation
  removes that ID from that category.
\<close>

fun isAdd :: "eventKind \<Rightarrow> 'r storeOp \<Rightarrow> bool" where
  "isAdd kind (AddList kind' rules) = (kind' = kind)"
| "isAdd kind (RemoveList kind' i) = False"

fun rulesOf :: "'r storeOp \<Rightarrow> 'r list" where
  "rulesOf (AddList kind rules) = rules"
| "rulesOf (RemoveList kind i) = []"

definition idAt :: "eventKind \<Rightarrow> 'r storeOp list \<Rightarrow> nat \<Rightarrow> int" where
  "idAt kind ops p = int (length (filter (isAdd kind) (take (Suc p) ops)))"

definition liveAt :: "eventKind \<Rightarrow> 'r storeOp list \<Rightarrow> nat \<Rightarrow> bool" where
  "liveAt kind ops p \<longleftrightarrow>
     isAdd kind (ops ! p) \<and> RemoveList kind (idAt kind ops p) \<notin> set (drop (Suc p) ops)"

definition masterSpec :: "eventKind \<Rightarrow> 'r storeOp list \<Rightarrow> 'r list" where
  "masterSpec kind ops =
     concat (map (\<lambda>p. rulesOf (ops ! p))
       (sort_key (idAt kind ops) (filter (liveAt kind ops) [0..<length ops])))"

text \<open>
  The same reading of the sequence, keeping each list with its ID: what the partition of a
  category should hold after the sequence. It relates the store to \<open>masterSpec\<close>.
\<close>

definition numAdds :: "eventKind \<Rightarrow> 'r storeOp list \<Rightarrow> int" where
  "numAdds kind ops = int (length (filter (isAdd kind) ops))"

definition specLists :: "eventKind \<Rightarrow> 'r storeOp list \<Rightarrow> (int \<times> 'r list) list" where
  "specLists kind ops =
     map (\<lambda>p. (idAt kind ops p, rulesOf (ops ! p))) (filter (liveAt kind ops) [0..<length ops])"

subsection \<open>Adapters and stores to run the commands on\<close>

text \<open>An adapter whose every call is rejected with the given error, and one that accepts all.\<close>

definition rejecting :: "error \<Rightarrow> ('r, unit) adapterUI" where
  "rejecting err =
     \<lparr>setKeyboardEventPropagationPolicy = (\<lambda>m h. (Inl err, h)),
      setPointerEventPropagationPolicy = (\<lambda>m h. (Inl err, h)),
      setKeyboardPropagationMode = (\<lambda>d h. (Inl err, h))\<rparr>"

definition accepting :: "('r, unit) adapterUI" where
  "accepting =
     \<lparr>setKeyboardEventPropagationPolicy = (\<lambda>m h. (Inr (), h)),
      setPointerEventPropagationPolicy = (\<lambda>m h. (Inr (), h)),
      setKeyboardPropagationMode = (\<lambda>d h. (Inr (), h))\<rparr>"

text \<open>A policy store like the one above, except that every removal throws after removing.\<close>

definition throwingStore :: "error \<Rightarrow> ('r storeState, 'r) policyStore" where
  "throwingStore err =
     \<lparr>addPolicyList = PolicyStore_addPolicyList,
      removePolicyList = (\<lambda>kind i s. (Inl err, snd (PolicyStore_removePolicyList kind i s))),
      getMasterPolicyList = PolicyStore_getMasterPolicyList\<rparr>"

text \<open>
  A stand-in for the number printing of the engine outside the safe range. The inputs
  below are safe integers, so it is never consulted.
\<close>

definition unknownRendering :: "int \<Rightarrow> string" where
  "unknownRendering i = ''?''"

text \<open>Three keyboard rules, for the scenarios of section 8 of the spec.\<close>

definition ruleX :: keyboardEventPolicy where
  "ruleX = KeyboardEventPolicy NEVER_PROPAGATE KEY_DOWN
             \<lparr>shift = None, control = None, alt = None, command = None\<rparr> (KeyCode 27)"

definition ruleY :: keyboardEventPolicy where
  "ruleY = KeyboardEventPolicy ALWAYS_PROPAGATE KEY_DOWN
             \<lparr>shift = Some True, control = None, alt = None, command = Some True\<rparr> (KeyChar ''z'')"

definition ruleZ :: keyboardEventPolicy where
  "ruleZ = KeyboardEventPolicy ALWAYS_PROPAGATE KEY_UP
             \<lparr>shift = None, control = Some False, alt = None, command = None\<rparr> (KeyCode 9)"

text \<open>The store after Scenarios A and B: two keyboard lists, no pointer list.\<close>

definition storeXY :: "keyboardEventPolicy storeState" where
  "storeXY =
     \<lparr>keyboardPartition = \<lparr>policyLists = [(1, [ruleX]), (2, [ruleY])], nextId = 3\<rparr>,
      pointerPartition = \<lparr>policyLists = [], nextId = 1\<rparr>\<rparr>"

text \<open>Reading a decimal string back, to show that the message tells the IDs apart.\<close>

definition digitVal :: "char \<Rightarrow> nat" where
  "digitVal c = of_char c - 48"

definition stringToNat :: "string \<Rightarrow> nat" where
  "stringToNat s = foldl (\<lambda>a c. 10 * a + digitVal c) 0 s"

section \<open>Auxiliary facts\<close>

subsection \<open>The decimal rendering of a number determines the number\<close>

lemma digitVal_digitChar: "d < 10 \<Longrightarrow> digitVal (digitChar d) = d"
proof -
  assume "d < 10"
  then have "d \<in> {0,1,2,3,4,5,6,7,8,9}" by auto
  then show ?thesis by (auto simp: digitVal_def digitChar_def)
qed

lemma stringToNat_snoc: "stringToNat (s @ [c]) = 10 * stringToNat s + digitVal c"
  by (simp add: stringToNat_def)

lemma stringToNat_natToString: "stringToNat (natToString n) = n"
proof (induction n rule: natToString.induct)
  case (1 n)
  show ?case
  proof (cases "n < 10")
    case True
    then show ?thesis
      by (subst natToString.simps) (simp add: stringToNat_def digitVal_digitChar)
  next
    case False
    with 1 show ?thesis
      by (subst natToString.simps) (simp add: stringToNat_snoc digitVal_digitChar)
  qed
qed

lemma natToString_nonempty: "natToString n \<noteq> []"
  by (subst natToString.simps) simp

lemma digitChar_not_minus: "d < 10 \<Longrightarrow> digitChar d \<noteq> CHR ''-''"
proof -
  assume "d < 10"
  then have "d \<in> {0,1,2,3,4,5,6,7,8,9}" by auto
  then show ?thesis by (auto simp: digitChar_def)
qed

lemma hd_natToString: "hd (natToString n) \<noteq> CHR ''-''"
proof (induction n rule: natToString.induct)
  case (1 n)
  show ?case
  proof (cases "n < 10")
    case True
    then show ?thesis
      by (subst natToString.simps) (simp add: digitChar_not_minus)
  next
    case False
    with 1 show ?thesis
      by (subst natToString.simps) (simp add: natToString_nonempty)
  qed
qed

lemma natToString_inj: "natToString m = natToString n \<Longrightarrow> m = n"
  by (metis stringToNat_natToString)

lemma numberToString_safe:
  "safeInteger i \<Longrightarrow>
     numberToString largeToString i =
       (if i < 0 then CHR ''-'' # natToString (nat (- i)) else natToString (nat i))"
  by (simp add: numberToString_def)

lemma numberToString_large: "\<not> safeInteger i \<Longrightarrow> numberToString largeToString i = largeToString i"
  by (simp add: numberToString_def)

lemma numberToString_inj:
  assumes "safeInteger i" and "safeInteger j"
    and eq: "numberToString largeToString i = numberToString largeToString j"
  shows "i = j"
proof -
  have neg: "hd (numberToString largeToString k) = CHR ''-'' \<longleftrightarrow> k < 0"
    if "safeInteger k" for k
    using that hd_natToString [of "nat k"] by (simp add: numberToString_def)
  from eq assms(1,2) have same: "i < 0 \<longleftrightarrow> j < 0" using neg by metis
  show ?thesis
  proof (cases "i < 0")
    case True
    with same eq assms(1,2) have "natToString (nat (- i)) = natToString (nat (- j))"
      by (simp add: numberToString_def)
    then have "nat (- i) = nat (- j)" by (rule natToString_inj)
    with True same show ?thesis by simp
  next
    case False
    with same eq assms(1,2) have "natToString (nat i) = natToString (nat j)"
      by (simp add: numberToString_def)
    then have "nat i = nat j" by (rule natToString_inj)
    with False same show ?thesis by simp
  qed
qed

subsection \<open>The policy store and the commands, unfolded\<close>

lemma partitionOf_setPartition:
  "partitionOf k (setPartition k' p s) = (if k = k' then p else partitionOf k s)"
  by (cases k; cases k') (simp_all add: partitionOf_def setPartition_def)

lemma setPartition_partitionOf: "setPartition k (partitionOf k s) s = s"
  by (cases k) (simp_all add: partitionOf_def setPartition_def)

lemma recording_keyboard:
  "setKeyboardEventPropagationPolicy (recording ui) m (log, h) =
     (fst (setKeyboardEventPropagationPolicy ui m h),
      (log @ [SetKeyboardEventPropagationPolicy m], snd (setKeyboardEventPropagationPolicy ui m h)))"
  by (simp add: recording_def logged_def split: prod.splits)

lemma recording_pointer:
  "setPointerEventPropagationPolicy (recording ui) m (log, h) =
     (fst (setPointerEventPropagationPolicy ui m h),
      (log @ [SetPointerEventPropagationPolicy m], snd (setPointerEventPropagationPolicy ui m h)))"
  by (simp add: recording_def logged_def split: prod.splits)

lemma installFunction_recording:
  "installFunction (recording ui) kind m (log, h) =
     (fst (installFunction ui kind m h), (log @ [installCall kind m], snd (installFunction ui kind m h)))"
  by (cases kind) (simp_all add: installFunction_def installCall_def recording_keyboard recording_pointer)

lemma addPolicies_unfold:
  "addPolicies ps ui kind policies st =
     (let newId = fst (addPolicyList ps kind policies (store st));
          s1 = snd (addPolicyList ps kind policies (store st));
          pushed = installFunction ui kind (getMasterPolicyList ps kind s1) (photoshop st)
      in case fst pushed of
           Inl err \<Rightarrow> (Inl err, \<lparr>store = snd (removePolicyList ps kind newId s1), photoshop = snd pushed\<rparr>)
         | Inr u \<Rightarrow> (Inr newId, \<lparr>store = s1, photoshop = snd pushed\<rparr>))"
  by (cases kind) (simp_all add: addPolicies_def installFunction_def Let_def split: prod.splits sum.splits)

lemma removePolicies_unfold:
  "removePolicies largeToString ps ui kind i commit st =
     (case removePolicyList ps kind i (store st) of
        (Inl thrown, s1) \<Rightarrow> (Inl thrown, \<lparr>store = s1, photoshop = photoshop st\<rparr>)
      | (Inr removed, s1) \<Rightarrow>
          if removed then
            if truthy commit then
              (fst (installFunction ui kind (getMasterPolicyList ps kind s1) (photoshop st)),
               \<lparr>store = s1,
                photoshop = snd (installFunction ui kind (getMasterPolicyList ps kind s1) (photoshop st))\<rparr>)
            else (Inr (), \<lparr>store = s1, photoshop = photoshop st\<rparr>)
          else (Inl (Error (''No policies found for id: '' @ numberToString largeToString i)),
                \<lparr>store = s1, photoshop = photoshop st\<rparr>))"
  by (cases kind) (simp_all add: removePolicies_def installFunction_def Let_def split: prod.splits sum.splits)

lemma PolicyStore_fields:
  "addPolicyList PolicyStore = PolicyStore_addPolicyList"
  "removePolicyList PolicyStore kind i s =
     (Inr (fst (PolicyStore_removePolicyList kind i s)), snd (PolicyStore_removePolicyList kind i s))"
  "getMasterPolicyList PolicyStore = PolicyStore_getMasterPolicyList"
  by (simp_all add: PolicyStore_def split: prod.splits)

lemma remove_registered:
  "registered kind i s \<Longrightarrow>
     PolicyStore_removePolicyList kind i s =
       (True, setPartition kind
          ((partitionOf kind s)\<lparr>policyLists := filter (\<lambda>e. fst e \<noteq> i) (policyLists (partitionOf kind s))\<rparr>) s)"
  by (simp add: PolicyStore_removePolicyList_def Let_def)

lemma remove_unregistered:
  "\<not> registered kind i s \<Longrightarrow> PolicyStore_removePolicyList kind i s = (False, s)"
  by (simp add: PolicyStore_removePolicyList_def)

lemma unregistered_after_remove:
  "\<not> registered kind i (snd (PolicyStore_removePolicyList kind i s))"
  by (cases "registered kind i s")
     (auto simp: remove_registered remove_unregistered registered_def partitionOf_setPartition)

lemma add_result:
  "PolicyStore_addPolicyList kind rules s =
     (nextId (partitionOf kind s),
      setPartition kind
        \<lparr>policyLists = policyLists (partitionOf kind s) @ [(nextId (partitionOf kind s), rules)],
         nextId = nextId (partitionOf kind s) + 1\<rparr> s)"
  by (simp add: PolicyStore_addPolicyList_def Let_def)

lemma storeOk_partitionOk: "storeOk s \<Longrightarrow> partitionOk (partitionOf kind s)"
  by (cases kind) (simp_all add: storeOk_def partitionOf_def)

lemma fresh_nextId: "storeOk s \<Longrightarrow> \<not> registered kind (nextId (partitionOf kind s)) s"
  using storeOk_partitionOk [of s kind] by (auto simp: registered_def partitionOk_def)

lemma sorted_snoc_key:
  assumes "partitionOk p"
  shows "sorted (map fst (policyLists p @ [(nextId p, rules)]))"
proof -
  from assms have "sorted_wrt (<) (map fst (policyLists p) @ [nextId p])"
    by (auto simp: partitionOk_def sorted_wrt_append)
  then show ?thesis by (simp add: strict_sorted_imp_sorted)
qed

lemma master_after_add:
  assumes "storeOk s"
  shows "PolicyStore_getMasterPolicyList kind (snd (PolicyStore_addPolicyList kind rules s)) =
           PolicyStore_getMasterPolicyList kind s @ rules"
proof -
  let ?p = "partitionOf kind s"
  from assms have ok: "partitionOk ?p" by (rule storeOk_partitionOk)
  then have "sorted (map fst (policyLists ?p))"
    by (simp add: partitionOk_def strict_sorted_imp_sorted)
  then have old: "sort_key fst (policyLists ?p) = policyLists ?p"
    by (rule sort_key_id_if_sorted)
  have new: "sort_key fst (policyLists ?p @ [(nextId ?p, rules)]) = policyLists ?p @ [(nextId ?p, rules)]"
    by (rule sort_key_id_if_sorted) (rule sorted_snoc_key [OF ok])
  show ?thesis
    by (simp add: add_result PolicyStore_getMasterPolicyList_def partitionOf_setPartition old new)
qed

lemma partition_nextId_update:
  "p\<lparr>nextId := k\<rparr> = \<lparr>policyLists = policyLists p, nextId = k\<rparr>"
  by (cases p) simp

lemma setPartition_twice: "setPartition k p (setPartition k q s) = setPartition k p s"
  by (cases k) (simp_all add: setPartition_def)

lemma rollback_store:
  assumes "storeOk s"
  shows "snd (PolicyStore_removePolicyList kind (nextId (partitionOf kind s))
                (snd (PolicyStore_addPolicyList kind rules s))) =
           setPartition kind ((partitionOf kind s)\<lparr>nextId := nextId (partitionOf kind s) + 1\<rparr>) s"
proof -
  let ?p = "partitionOf kind s"
  let ?n = "nextId ?p"
  let ?s1 = "snd (PolicyStore_addPolicyList kind rules s)"
  from assms have ok: "partitionOk ?p" by (rule storeOk_partitionOk)
  then have "\<forall>e \<in> set (policyLists ?p). fst e \<noteq> ?n"
    by (auto simp: partitionOk_def)
  then have keep: "filter (\<lambda>e. fst e \<noteq> ?n) (policyLists ?p) = policyLists ?p"
    by (simp add: filter_id_conv)
  have s1: "?s1 = setPartition kind \<lparr>policyLists = policyLists ?p @ [(?n, rules)], nextId = ?n + 1\<rparr> s"
    by (simp add: add_result)
  have reg: "registered kind ?n ?s1"
    by (simp add: s1 registered_def partitionOf_setPartition)
  have "snd (PolicyStore_removePolicyList kind ?n ?s1) =
          setPartition kind
            ((partitionOf kind ?s1)\<lparr>policyLists := filter (\<lambda>e. fst e \<noteq> ?n) (policyLists (partitionOf kind ?s1))\<rparr>) ?s1"
    by (simp add: remove_registered [OF reg])
  also have "\<dots> = setPartition kind (?p\<lparr>nextId := ?n + 1\<rparr>) s"
    by (simp add: s1 partitionOf_setPartition setPartition_twice keep partition_nextId_update)
  finally show ?thesis .
qed


lemma master_setPartition_nextId:
  "PolicyStore_getMasterPolicyList k
     (setPartition kind ((partitionOf kind s)\<lparr>nextId := n\<rparr>) s) =
   PolicyStore_getMasterPolicyList k s"
  by (simp add: PolicyStore_getMasterPolicyList_def partitionOf_setPartition)

lemma registered_setPartition_nextId:
  "registered k i (setPartition kind ((partitionOf kind s)\<lparr>nextId := n\<rparr>) s) = registered k i s"
  by (simp add: registered_def partitionOf_setPartition)

lemma storeOk_initialStore: "storeOk initialStore"
  by (simp add: storeOk_def initialStore_def partitionOk_def)

lemma storeOk_storeXY: "storeOk storeXY"
  by (simp add: storeOk_def storeXY_def partitionOk_def)

lemma registered_after_add:
  "registered kind (nextId (partitionOf kind s)) (snd (PolicyStore_addPolicyList kind rules s))"
  by (simp add: add_result registered_def partitionOf_setPartition)

subsection \<open>Removal on the policy store\<close>

lemma removePolicies_PolicyStore_unregistered:
  "\<not> registered kind i s \<Longrightarrow>
     removePolicies largeToString PolicyStore ui kind i commit \<lparr>store = s, photoshop = ph\<rparr> =
       (Inl (Error (''No policies found for id: '' @ numberToString largeToString i)),
        \<lparr>store = s, photoshop = ph\<rparr>)"
  by (simp add: removePolicies_unfold PolicyStore_fields remove_unregistered)

lemma removePolicies_PolicyStore_local:
  "registered kind i s \<Longrightarrow> \<not> truthy commit \<Longrightarrow>
     removePolicies largeToString PolicyStore ui kind i commit \<lparr>store = s, photoshop = ph\<rparr> =
       (Inr (), \<lparr>store = snd (PolicyStore_removePolicyList kind i s), photoshop = ph\<rparr>)"
  by (simp add: removePolicies_unfold PolicyStore_fields remove_registered)

lemma removePolicies_PolicyStore_commit:
  "registered kind i s \<Longrightarrow> truthy commit \<Longrightarrow>
     removePolicies largeToString PolicyStore ui kind i commit \<lparr>store = s, photoshop = ph\<rparr> =
       (fst (installFunction ui kind
               (PolicyStore_getMasterPolicyList kind (snd (PolicyStore_removePolicyList kind i s))) ph),
        \<lparr>store = snd (PolicyStore_removePolicyList kind i s),
         photoshop = snd (installFunction ui kind
               (PolicyStore_getMasterPolicyList kind (snd (PolicyStore_removePolicyList kind i s))) ph)\<rparr>)"
  by (simp add: removePolicies_unfold PolicyStore_fields remove_registered)

lemma lists_after_remove:
  "policyLists (partitionOf kind (snd (PolicyStore_removePolicyList kind i s))) =
     filter (\<lambda>e. fst e \<noteq> i) (policyLists (partitionOf kind s))"
proof (cases "registered kind i s")
  case True
  then show ?thesis by (simp add: remove_registered partitionOf_setPartition)
next
  case False
  then have "\<forall>e \<in> set (policyLists (partitionOf kind s)). fst e \<noteq> i"
    by (auto simp: registered_def)
  then have "filter (\<lambda>e. fst e \<noteq> i) (policyLists (partitionOf kind s)) = policyLists (partitionOf kind s)"
    by (simp add: filter_id_conv)
  with False show ?thesis by (simp add: remove_unregistered)
qed

subsection \<open>What a recording adapter logs\<close>

lemma addPolicies_recording_log:
  "fst (photoshop (snd (addPolicies ps (recording ui) kind policies
          \<lparr>store = s, photoshop = (log, h)\<rparr>))) =
     log @ [installCall kind (getMasterPolicyList ps kind (snd (addPolicyList ps kind policies s)))]"
  by (simp add: addPolicies_unfold installFunction_recording Let_def split: sum.splits)

lemma removePolicies_recording_log:
  "removePolicyList ps kind i s = (Inr True, s1) \<Longrightarrow> truthy commit \<Longrightarrow>
     fst (photoshop (snd (removePolicies largeToString ps (recording ui) kind i commit
            \<lparr>store = s, photoshop = (log, h)\<rparr>))) =
       log @ [installCall kind (getMasterPolicyList ps kind s1)]"
  by (simp add: removePolicies_unfold installFunction_recording)

lemma removed_storeXY:
  "PolicyStore_removePolicyList KEYBOARD 1 storeXY =
     (True, \<lparr>keyboardPartition = \<lparr>policyLists = [(2, [ruleY])], nextId = 3\<rparr>,
             pointerPartition = \<lparr>policyLists = [], nextId = 1\<rparr>\<rparr>)"
  by (simp add: PolicyStore_removePolicyList_def registered_def storeXY_def partitionOf_def
      setPartition_def Let_def)

lemma addPolicies_recording_fulfilled:
  assumes "addPolicyList ps kind policies t = (newId, t1)"
    and "fst (installFunction ui kind (getMasterPolicyList ps kind t1) h) = Inr ()"
  shows "addPolicies ps (recording ui) kind policies \<lparr>store = t, photoshop = (log, h)\<rparr> =
           (Inr newId,
            \<lparr>store = t1,
             photoshop = (log @ [installCall kind (getMasterPolicyList ps kind t1)],
                          snd (installFunction ui kind (getMasterPolicyList ps kind t1) h))\<rparr>)"
  using assms by (simp add: addPolicies_unfold installFunction_recording Let_def)

lemma addPolicies_recording_success:
  assumes "addPolicies ps (recording ui) kind policies \<lparr>store = t, photoshop = (log, h)\<rparr> = (Inr i, st')"
  shows "(i, store st') = addPolicyList ps kind policies t \<and>
         photoshop st' =
           (log @ [installCall kind (getMasterPolicyList ps kind (store st'))],
            snd (installFunction ui kind (getMasterPolicyList ps kind (store st')) h)) \<and>
         fst (installFunction ui kind (getMasterPolicyList ps kind (store st')) h) = Inr ()"
proof -
  let ?t1 = "snd (addPolicyList ps kind policies t)"
  let ?m = "getMasterPolicyList ps kind ?t1"
  from assms have ok: "fst (installFunction ui kind ?m h) = Inr ()"
    by (auto simp: addPolicies_unfold installFunction_recording Let_def split: sum.splits)
  with assms have i: "i = fst (addPolicyList ps kind policies t)"
    and st': "st' = \<lparr>store = ?t1, photoshop = (log @ [installCall kind ?m], snd (installFunction ui kind ?m h))\<rparr>"
    by (auto simp: addPolicies_unfold installFunction_recording Let_def)
  show ?thesis by (simp add: st' i ok)
qed

subsection \<open>The store after a sequence of operations\<close>

lemma idAt_snoc_old: "p < length ops \<Longrightarrow> idAt kind (ops @ [x]) p = idAt kind ops p"
  by (simp add: idAt_def)

lemma idAt_snoc_new:
  "idAt kind (ops @ [x]) (length ops) = numAdds kind ops + (if isAdd kind x then 1 else 0)"
  by (simp add: idAt_def numAdds_def)

lemma liveAt_snoc_old:
  "p < length ops \<Longrightarrow>
     liveAt kind (ops @ [x]) p \<longleftrightarrow> liveAt kind ops p \<and> x \<noteq> RemoveList kind (idAt kind ops p)"
  by (auto simp: liveAt_def idAt_snoc_old nth_append)

lemma liveAt_snoc_new: "liveAt kind (ops @ [x]) (length ops) \<longleftrightarrow> isAdd kind x"
  by (simp add: liveAt_def)

lemma specLists_snoc_old:
  "map (\<lambda>p. (idAt kind (ops @ [x]) p, rulesOf ((ops @ [x]) ! p)))
       (filter (liveAt kind (ops @ [x])) [0..<length ops]) =
   filter (\<lambda>e. x \<noteq> RemoveList kind (fst e)) (specLists kind ops)"
proof -
  have f: "filter (liveAt kind (ops @ [x])) [0..<length ops] =
           filter (\<lambda>p. liveAt kind ops p \<and> x \<noteq> RemoveList kind (idAt kind ops p)) [0..<length ops]"
    by (rule filter_cong) (simp_all add: liveAt_snoc_old)
  have m: "map (\<lambda>p. (idAt kind (ops @ [x]) p, rulesOf ((ops @ [x]) ! p))) ps =
           map (\<lambda>p. (idAt kind ops p, rulesOf (ops ! p))) ps"
    if "set ps \<subseteq> {0..<length ops}" for ps
    using that by (intro map_cong) (auto simp: idAt_snoc_old nth_append)
  have sub: "set (filter P [0..<length ops]) \<subseteq> {0..<length ops}" for P
    by auto
  show ?thesis
    unfolding f m [OF sub] specLists_def
    by (simp add: filter_map comp_def conj_commute)
qed

lemma specLists_snoc:
  "specLists kind (ops @ [x]) =
     filter (\<lambda>e. x \<noteq> RemoveList kind (fst e)) (specLists kind ops) @
     (if isAdd kind x then [(numAdds kind ops + 1, rulesOf x)] else [])"
proof -
  have "specLists kind (ops @ [x]) =
      map (\<lambda>p. (idAt kind (ops @ [x]) p, rulesOf ((ops @ [x]) ! p)))
          (filter (liveAt kind (ops @ [x])) [0..<length ops]) @
      (if isAdd kind x then [(numAdds kind ops + 1, rulesOf x)] else [])"
    by (simp add: specLists_def liveAt_snoc_new idAt_snoc_new)
  then show ?thesis by (simp only: specLists_snoc_old)
qed

lemma runOps_snoc: "runOps (ops @ [x]) = applyOp x (runOps ops)"
  by (simp add: runOps_def)

lemma numAdds_snoc:
  "numAdds kind (ops @ [x]) = numAdds kind ops + (if isAdd kind x then 1 else 0)"
  by (simp add: numAdds_def)

lemma nextId_after_remove:
  "nextId (partitionOf kind (snd (PolicyStore_removePolicyList k i s))) = nextId (partitionOf kind s)"
  by (cases "registered k i s")
     (simp_all add: remove_registered remove_unregistered partitionOf_setPartition)

lemma lists_after_remove_other:
  "k \<noteq> kind \<Longrightarrow>
     policyLists (partitionOf kind (snd (PolicyStore_removePolicyList k i s))) =
       policyLists (partitionOf kind s)"
  by (cases "registered k i s")
     (simp_all add: remove_registered remove_unregistered partitionOf_setPartition)

lemma runOps_partition:
  "policyLists (partitionOf kind (runOps ops)) = specLists kind ops \<and>
   nextId (partitionOf kind (runOps ops)) = numAdds kind ops + 1"
proof (induction ops rule: rev_induct)
  case Nil
  show ?case
    by (cases kind) (simp_all add: runOps_def initialStore_def partitionOf_def specLists_def numAdds_def)
next
  case (snoc x ops)
  then have lists: "policyLists (partitionOf kind (runOps ops)) = specLists kind ops"
    and next_id: "nextId (partitionOf kind (runOps ops)) = numAdds kind ops + 1"
    by simp_all
  show ?case
  proof (cases x)
    case (AddList k rules)
    show ?thesis
    proof (cases "k = kind")
      case True
      with AddList lists next_id show ?thesis
        by (simp add: runOps_snoc specLists_snoc numAdds_snoc add_result partitionOf_setPartition)
    next
      case False
      with AddList lists next_id show ?thesis
        by (simp add: runOps_snoc specLists_snoc numAdds_snoc add_result partitionOf_setPartition)
    qed
  next
    case (RemoveList k i)
    show ?thesis
    proof (cases "k = kind")
      case True
      have "(\<lambda>e :: int \<times> 'a list. i \<noteq> fst e) = (\<lambda>e. fst e \<noteq> i)" by auto
      with True RemoveList lists next_id show ?thesis
        by (simp add: runOps_snoc specLists_snoc numAdds_snoc lists_after_remove nextId_after_remove)
    next
      case False
      with RemoveList lists next_id show ?thesis
        by (simp add: runOps_snoc specLists_snoc numAdds_snoc lists_after_remove_other
            nextId_after_remove)
    qed
  qed
qed

lemma idAt_mono: "p \<le> q \<Longrightarrow> idAt kind ops p \<le> idAt kind ops q"
proof -
  assume "p \<le> q"
  then have "take (Suc q) ops = take (Suc p) ops @ take (q - p) (drop (Suc p) ops)"
    by (metis Suc_diff_le Suc_le_mono diff_Suc_Suc le_add_diff_inverse take_add)
  then show ?thesis by (simp add: idAt_def)
qed

lemma sorted_live_ids:
  "sorted (map (idAt kind ops) (filter (liveAt kind ops) [0..<length ops]))"
proof -
  have "sorted_wrt (\<le>) (filter (liveAt kind ops) [0..<length ops])"
    by (rule sorted_wrt_filter) simp
  then have "sorted_wrt (\<lambda>p q. idAt kind ops p \<le> idAt kind ops q)
               (filter (liveAt kind ops) [0..<length ops])"
    by (rule sorted_wrt_mono_rel [rotated]) (simp add: idAt_mono)
  then show ?thesis by (simp add: sorted_wrt_map)
qed

subsection \<open>Every operation keeps the store well-formed\<close>

lemma partitionOk_add:
  assumes "partitionOk p"
  shows "partitionOk \<lparr>policyLists = policyLists p @ [(nextId p, rules)], nextId = nextId p + 1\<rparr>"
proof -
  from assms have "sorted_wrt (<) (map fst (policyLists p) @ [nextId p])"
    by (auto simp: partitionOk_def sorted_wrt_append)
  then show ?thesis
    using assms by (auto simp: partitionOk_def)
qed

lemma partitionOk_remove:
  assumes "partitionOk p"
  shows "partitionOk (p\<lparr>policyLists := filter (\<lambda>e. fst e \<noteq> i) (policyLists p)\<rparr>)"
proof -
  have "map fst (filter (\<lambda>e. fst e \<noteq> i) (policyLists p)) = filter (\<lambda>k. k \<noteq> i) (map fst (policyLists p))"
    by (simp add: filter_map comp_def)
  moreover from assms have "sorted_wrt (<) (filter (\<lambda>k. k \<noteq> i) (map fst (policyLists p)))"
    by (simp add: partitionOk_def sorted_wrt_filter)
  ultimately show ?thesis
    using assms by (auto simp: partitionOk_def)
qed

lemma storeOk_setPartition:
  "storeOk s \<Longrightarrow> partitionOk p \<Longrightarrow> storeOk (setPartition kind p s)"
  by (cases kind) (simp_all add: storeOk_def setPartition_def)

lemma storeOk_add: "storeOk s \<Longrightarrow> storeOk (snd (PolicyStore_addPolicyList kind rules s))"
  by (simp add: add_result storeOk_setPartition partitionOk_add storeOk_partitionOk)

lemma storeOk_remove: "storeOk s \<Longrightarrow> storeOk (snd (PolicyStore_removePolicyList kind i s))"
  by (cases "registered kind i s")
     (simp_all add: remove_registered remove_unregistered storeOk_setPartition partitionOk_remove
        storeOk_partitionOk)

lemma storeOk_applyOp: "storeOk s \<Longrightarrow> storeOk (applyOp x s)"
  by (cases x) (simp_all add: storeOk_add storeOk_remove)

lemma storeOk_runOps: "storeOk (runOps ops)"
  by (induction ops rule: rev_induct)
     (simp_all add: runOps_snoc storeOk_applyOp, simp add: runOps_def storeOk_initialStore)

lemma storeOk_addPolicies:
  "storeOk (store st) \<Longrightarrow> storeOk (store (snd (addPolicies PolicyStore ui kind policies st)))"
  by (simp add: addPolicies_unfold PolicyStore_fields Let_def storeOk_add storeOk_remove
      split: sum.splits)

lemma storeOk_removePolicies:
  "storeOk (store st) \<Longrightarrow> storeOk (store (snd (removePolicies largeToString PolicyStore ui kind i commit st)))"
  by (simp add: removePolicies_unfold PolicyStore_fields storeOk_remove)

section \<open>Properties\<close>

text \<open>
  C1, as the code has it. When the install call of \<^verbatim>\<open>_addPolicies\<close> is rejected with an
  error, the command fails with that error, and the store is what \<^verbatim>\<open>removePolicyList\<close>
  made of it, whatever that call returned or threw: an exception of the removal never
  replaces the error of the install (first part, for every store and every adapter). On
  the policy store, in a well-formed state, the removal undoes the registration: the
  registered lists and the master list of every category are as they were before the
  call. The store as a whole is not as it was: the counter of the category has advanced
  by one, because the ID that was allocated is not given back (second part).
\<close>

theorem addPolicies_failed_install_rolls_back:
  "(addPolicyList ps kind policies (store st) = (newId, s1) \<and>
    fst (installFunction ui kind (getMasterPolicyList ps kind s1) (photoshop st)) = Inl err
    \<longrightarrow> fst (addPolicies ps ui kind policies st) = Inl err \<and>
        store (snd (addPolicies ps ui kind policies st)) = snd (removePolicyList ps kind newId s1))
   \<and>
   (storeOk s \<and>
    fst (installFunction ui kind
           (PolicyStore_getMasterPolicyList kind (snd (PolicyStore_addPolicyList kind policies s))) h)
      = Inl err
    \<longrightarrow> fst (addPolicies PolicyStore ui kind policies \<lparr>store = s, photoshop = h\<rparr>) = Inl err \<and>
        store (snd (addPolicies PolicyStore ui kind policies \<lparr>store = s, photoshop = h\<rparr>)) =
          setPartition kind ((partitionOf kind s)\<lparr>nextId := nextId (partitionOf kind s) + 1\<rparr>) s \<and>
        (\<forall>k. PolicyStore_getMasterPolicyList k
               (store (snd (addPolicies PolicyStore ui kind policies \<lparr>store = s, photoshop = h\<rparr>))) =
             PolicyStore_getMasterPolicyList k s) \<and>
        (\<forall>k i. registered k i
               (store (snd (addPolicies PolicyStore ui kind policies \<lparr>store = s, photoshop = h\<rparr>))) =
             registered k i s))"
proof (intro conjI impI)
  assume a: "addPolicyList ps kind policies (store st) = (newId, s1) \<and>
    fst (installFunction ui kind (getMasterPolicyList ps kind s1) (photoshop st)) = Inl err"
  then show "fst (addPolicies ps ui kind policies st) = Inl err"
    by (simp add: addPolicies_unfold Let_def)
  from a show "store (snd (addPolicies ps ui kind policies st)) = snd (removePolicyList ps kind newId s1)"
    by (simp add: addPolicies_unfold Let_def)
next
  let ?st = "\<lparr>store = s, photoshop = h\<rparr>"
  assume b: "storeOk s \<and>
    fst (installFunction ui kind
           (PolicyStore_getMasterPolicyList kind (snd (PolicyStore_addPolicyList kind policies s))) h)
      = Inl err"
  then show failed: "fst (addPolicies PolicyStore ui kind policies ?st) = Inl err"
    by (simp add: addPolicies_unfold PolicyStore_fields Let_def)
  from b have "store (snd (addPolicies PolicyStore ui kind policies ?st)) =
      snd (PolicyStore_removePolicyList kind (fst (PolicyStore_addPolicyList kind policies s))
             (snd (PolicyStore_addPolicyList kind policies s)))"
    by (simp add: addPolicies_unfold PolicyStore_fields Let_def)
  also have "\<dots> = setPartition kind ((partitionOf kind s)\<lparr>nextId := nextId (partitionOf kind s) + 1\<rparr>) s"
    using b rollback_store [of s kind policies] by (simp add: add_result)
  finally show after: "store (snd (addPolicies PolicyStore ui kind policies ?st)) =
      setPartition kind ((partitionOf kind s)\<lparr>nextId := nextId (partitionOf kind s) + 1\<rparr>) s" .
  show "\<forall>k. PolicyStore_getMasterPolicyList k (store (snd (addPolicies PolicyStore ui kind policies ?st))) =
             PolicyStore_getMasterPolicyList k s"
    by (simp only: after master_setPartition_nextId) simp
  show "\<forall>k i. registered k i (store (snd (addPolicies PolicyStore ui kind policies ?st))) =
             registered k i s"
    by (simp only: after registered_setPartition_nextId) simp
qed

theorem addPolicies_failed_install_rolls_back_witness:
  "addPolicyList (throwingStore (Error ''rollback failed'')) KEYBOARD [ruleZ] initialStore =
     (1, snd (PolicyStore_addPolicyList KEYBOARD [ruleZ] initialStore)) \<and>
   fst (removePolicyList (throwingStore (Error ''rollback failed'')) KEYBOARD 1
          (snd (PolicyStore_addPolicyList KEYBOARD [ruleZ] initialStore))) =
     Inl (Error ''rollback failed'') \<and>
   fst (addPolicies (throwingStore (Error ''rollback failed'')) (rejecting (Error ''install failed''))
          KEYBOARD [ruleZ] \<lparr>store = initialStore, photoshop = ()\<rparr>) = Inl (Error ''install failed'') \<and>
   storeOk (initialStore :: keyboardEventPolicy storeState) \<and>
   fst (addPolicies PolicyStore (rejecting (Error ''install failed''))
          KEYBOARD [ruleZ] \<lparr>store = initialStore, photoshop = ()\<rparr>) = Inl (Error ''install failed'') \<and>
   PolicyStore_getMasterPolicyList KEYBOARD
     (store (snd (addPolicies PolicyStore (rejecting (Error ''install failed''))
          KEYBOARD [ruleZ] \<lparr>store = initialStore, photoshop = ()\<rparr>))) = []"
proof -
  have ok: "storeOk (initialStore :: keyboardEventPolicy storeState)"
    by (rule storeOk_initialStore)
  have add: "addPolicyList (throwingStore (Error ''rollback failed'')) KEYBOARD [ruleZ] initialStore =
     (1, snd (PolicyStore_addPolicyList KEYBOARD [ruleZ] initialStore))"
    by (simp add: throwingStore_def add_result initialStore_def partitionOf_def)
  have rej: "fst (installFunction (rejecting (Error ''install failed'')) KEYBOARD m ()) =
      Inl (Error ''install failed'')" for m :: "keyboardEventPolicy list"
    by (simp add: installFunction_def rejecting_def)
  have thrown: "fst (removePolicyList (throwingStore (Error ''rollback failed'')) KEYBOARD 1
          (snd (PolicyStore_addPolicyList KEYBOARD [ruleZ] initialStore))) =
     Inl (Error ''rollback failed'')"
    by (simp add: throwingStore_def)
  have empty: "PolicyStore_getMasterPolicyList KEYBOARD (initialStore :: keyboardEventPolicy storeState) = []"
    by (simp add: PolicyStore_getMasterPolicyList_def initialStore_def partitionOf_def)
  show ?thesis
    using addPolicies_failed_install_rolls_back
      [of "throwingStore (Error ''rollback failed'')" KEYBOARD "[ruleZ]"
          "\<lparr>store = initialStore, photoshop = ()\<rparr>" 1
          "snd (PolicyStore_addPolicyList KEYBOARD [ruleZ] initialStore)"
          "rejecting (Error ''install failed'')" "Error ''install failed''" initialStore "()"]
      ok add rej thrown empty
    by (simp add: master_setPartition_nextId)
qed

text \<open>
  The claim as written has the store exactly as it was before the call. From the store as
  it is at start, an add of one keyboard rule whose install is rejected fails with the
  error of the install, its rollback removal finds the list and removes it, and still the
  store differs from the one before the call: the next ID of the keyboard category is 2.
\<close>

theorem addPolicies_store_not_restored_counterexample:
  "fst (addPolicies PolicyStore (rejecting (Error ''install failed'')) KEYBOARD [ruleZ]
          \<lparr>store = initialStore, photoshop = ()\<rparr>) = Inl (Error ''install failed'') \<and>
   fst (removePolicyList PolicyStore KEYBOARD 1
          (snd (addPolicyList PolicyStore KEYBOARD [ruleZ] initialStore))) = Inr True \<and>
   store (snd (addPolicies PolicyStore (rejecting (Error ''install failed'')) KEYBOARD [ruleZ]
          \<lparr>store = initialStore, photoshop = ()\<rparr>)) \<noteq> initialStore"
  by (simp add: addPolicies_def PolicyStore_def PolicyStore_addPolicyList_def
      PolicyStore_removePolicyList_def registered_def rejecting_def initialStore_def
      partitionOf_def setPartition_def Let_def)

text \<open>
  C2. For every sequence of add and remove operations, run from the store as it is at
  start, and for every category, \<^verbatim>\<open>getMasterPolicyList\<close> returns what the sequence alone
  determines: the concatenation, in ascending order of list ID, of the rule lists that
  were added to the category and not removed since, each list in the order its caller
  gave; operations on the other category do not count.
\<close>

theorem master_list_of_operation_sequence:
  "PolicyStore_getMasterPolicyList kind (runOps ops) = masterSpec kind ops"
proof -
  have "map fst (specLists kind ops) = map (idAt kind ops) (filter (liveAt kind ops) [0..<length ops])"
    by (simp add: specLists_def comp_def)
  then have "sorted (map fst (specLists kind ops))"
    by (simp add: sorted_live_ids)
  then have impl: "sort_key fst (specLists kind ops) = specLists kind ops"
    by (rule sort_key_id_if_sorted)
  have spec: "sort_key (idAt kind ops) (filter (liveAt kind ops) [0..<length ops]) =
              filter (liveAt kind ops) [0..<length ops]"
    by (rule sort_key_id_if_sorted) (rule sorted_live_ids)
  show ?thesis
    by (simp add: PolicyStore_getMasterPolicyList_def masterSpec_def runOps_partition impl spec)
       (simp add: specLists_def comp_def)
qed

theorem master_list_of_operation_sequence_witness:
  "PolicyStore_getMasterPolicyList KEYBOARD
     (runOps [RemoveList KEYBOARD 2, AddList KEYBOARD [ruleX], AddList POINTER [ruleZ],
              AddList KEYBOARD [ruleY], RemoveList KEYBOARD 1, AddList KEYBOARD [ruleZ, ruleX]]) =
   [ruleY, ruleZ, ruleX]"
proof -
  have "masterSpec KEYBOARD
     [RemoveList KEYBOARD 2, AddList KEYBOARD [ruleX], AddList POINTER [ruleZ],
      AddList KEYBOARD [ruleY], RemoveList KEYBOARD 1, AddList KEYBOARD [ruleZ, ruleX]] =
   [ruleY, ruleZ, ruleX]"
    by code_simp
  then show ?thesis
    using master_list_of_operation_sequence
            [of KEYBOARD "[RemoveList KEYBOARD 2, AddList KEYBOARD [ruleX], AddList POINTER [ruleZ],
              AddList KEYBOARD [ruleY], RemoveList KEYBOARD 1, AddList KEYBOARD [ruleZ, ruleX]]"]
    by simp
qed

text \<open>
  C3. \<^verbatim>\<open>_addPolicies\<close> first registers the rules, then computes the master list of the
  store after that registration and hands it to the install function of the category.
  When that call is fulfilled, the command resolves with the ID that \<^verbatim>\<open>addPolicyList\<close>
  returned, the store is as the registration left it, and the install call is the one
  adapter call made (first part, for every store and every adapter). Conversely, the
  command resolves only so: with that ID, that store and that one fulfilled call (second
  part). On the policy store, in a well-formed state, the ID is the next ID of the
  category, no list of the category had it before, the rules are registered under it
  afterwards, and the master list after the registration is the former master list
  followed by the new rules (third part); so a fulfilled install of that master list makes
  the command resolve with the next ID of the category and keep the list (fourth part).
\<close>

theorem addPolicies_success_returns_allocated_id:
  "(addPolicyList ps kind policies t = (newId, t1) \<and>
    fst (installFunction ui kind (getMasterPolicyList ps kind t1) h) = Inr ()
    \<longrightarrow> addPolicies ps (recording ui) kind policies \<lparr>store = t, photoshop = (log, h)\<rparr> =
          (Inr newId,
           \<lparr>store = t1,
            photoshop = (log @ [installCall kind (getMasterPolicyList ps kind t1)],
                         snd (installFunction ui kind (getMasterPolicyList ps kind t1) h))\<rparr>))
   \<and>
   (addPolicies ps (recording ui) kind policies \<lparr>store = t, photoshop = (log, h)\<rparr> = (Inr i, st')
    \<longrightarrow> (i, store st') = addPolicyList ps kind policies t \<and>
        photoshop st' =
          (log @ [installCall kind (getMasterPolicyList ps kind (store st'))],
           snd (installFunction ui kind (getMasterPolicyList ps kind (store st')) h)) \<and>
        fst (installFunction ui kind (getMasterPolicyList ps kind (store st')) h) = Inr ())
   \<and>
   (storeOk s
    \<longrightarrow> fst (PolicyStore_addPolicyList kind policies s) = nextId (partitionOf kind s) \<and>
        \<not> registered kind (nextId (partitionOf kind s)) s \<and>
        registered kind (nextId (partitionOf kind s))
          (snd (PolicyStore_addPolicyList kind policies s)) \<and>
        (nextId (partitionOf kind s), policies) \<in>
          set (policyLists (partitionOf kind (snd (PolicyStore_addPolicyList kind policies s)))) \<and>
        PolicyStore_getMasterPolicyList kind (snd (PolicyStore_addPolicyList kind policies s)) =
          PolicyStore_getMasterPolicyList kind s @ policies)
   \<and>
   (storeOk s \<and>
    fst (installFunction ui kind (PolicyStore_getMasterPolicyList kind s @ policies) h) = Inr ()
    \<longrightarrow> addPolicies PolicyStore (recording ui) kind policies \<lparr>store = s, photoshop = (log, h)\<rparr> =
          (Inr (nextId (partitionOf kind s)),
           \<lparr>store = snd (PolicyStore_addPolicyList kind policies s),
            photoshop =
              (log @ [installCall kind (PolicyStore_getMasterPolicyList kind s @ policies)],
               snd (installFunction ui kind
                      (PolicyStore_getMasterPolicyList kind s @ policies) h))\<rparr>))"
proof (intro conjI impI)
  assume "addPolicyList ps kind policies t = (newId, t1) \<and>
    fst (installFunction ui kind (getMasterPolicyList ps kind t1) h) = Inr ()"
  then show "addPolicies ps (recording ui) kind policies \<lparr>store = t, photoshop = (log, h)\<rparr> =
      (Inr newId,
       \<lparr>store = t1,
        photoshop = (log @ [installCall kind (getMasterPolicyList ps kind t1)],
                     snd (installFunction ui kind (getMasterPolicyList ps kind t1) h))\<rparr>)"
    by (simp add: addPolicies_recording_fulfilled)
next
  assume "addPolicies ps (recording ui) kind policies \<lparr>store = t, photoshop = (log, h)\<rparr> = (Inr i, st')"
  from addPolicies_recording_success [OF this]
  show "(i, store st') = addPolicyList ps kind policies t"
    and "photoshop st' =
          (log @ [installCall kind (getMasterPolicyList ps kind (store st'))],
           snd (installFunction ui kind (getMasterPolicyList ps kind (store st')) h))"
    and "fst (installFunction ui kind (getMasterPolicyList ps kind (store st')) h) = Inr ()"
    by simp_all
next
  assume ok: "storeOk s"
  show "fst (PolicyStore_addPolicyList kind policies s) = nextId (partitionOf kind s)"
    by (simp add: add_result)
  show "\<not> registered kind (nextId (partitionOf kind s)) s"
    by (rule fresh_nextId [OF ok])
  show "registered kind (nextId (partitionOf kind s)) (snd (PolicyStore_addPolicyList kind policies s))"
    by (rule registered_after_add)
  show "(nextId (partitionOf kind s), policies) \<in>
      set (policyLists (partitionOf kind (snd (PolicyStore_addPolicyList kind policies s))))"
    by (simp add: add_result partitionOf_setPartition)
  show "PolicyStore_getMasterPolicyList kind (snd (PolicyStore_addPolicyList kind policies s)) =
      PolicyStore_getMasterPolicyList kind s @ policies"
    by (rule master_after_add [OF ok])
next
  assume c: "storeOk s \<and>
    fst (installFunction ui kind (PolicyStore_getMasterPolicyList kind s @ policies) h) = Inr ()"
  then have ok: "storeOk s" by simp
  have added: "addPolicyList PolicyStore kind policies s =
      (nextId (partitionOf kind s), snd (PolicyStore_addPolicyList kind policies s))"
    by (simp add: PolicyStore_fields add_result)
  have master: "getMasterPolicyList PolicyStore kind (snd (PolicyStore_addPolicyList kind policies s)) =
      PolicyStore_getMasterPolicyList kind s @ policies"
    by (simp add: PolicyStore_fields master_after_add [OF ok])
  from c have "fst (installFunction ui kind
      (getMasterPolicyList PolicyStore kind (snd (PolicyStore_addPolicyList kind policies s))) h) = Inr ()"
    by (simp only: master)
  from addPolicies_recording_fulfilled [OF added this, of log]
  show "addPolicies PolicyStore (recording ui) kind policies \<lparr>store = s, photoshop = (log, h)\<rparr> =
      (Inr (nextId (partitionOf kind s)),
       \<lparr>store = snd (PolicyStore_addPolicyList kind policies s),
        photoshop =
          (log @ [installCall kind (PolicyStore_getMasterPolicyList kind s @ policies)],
           snd (installFunction ui kind
                  (PolicyStore_getMasterPolicyList kind s @ policies) h))\<rparr>)"
    by (simp only: master)
qed

theorem addPolicies_success_returns_allocated_id_witness:
  "storeOk storeXY \<and>
   PolicyStore_getMasterPolicyList KEYBOARD storeXY = [ruleX, ruleY] \<and>
   fst (installFunction accepting KEYBOARD ([ruleX, ruleY] @ [ruleZ]) ()) = Inr () \<and>
   addPolicies PolicyStore (recording accepting) KEYBOARD [ruleZ] \<lparr>store = storeXY, photoshop = ([], ())\<rparr> =
     (Inr 3,
      \<lparr>store = \<lparr>keyboardPartition =
                  \<lparr>policyLists = [(1, [ruleX]), (2, [ruleY]), (3, [ruleZ])], nextId = 4\<rparr>,
                pointerPartition = \<lparr>policyLists = [], nextId = 1\<rparr>\<rparr>,
       photoshop = ([SetKeyboardEventPropagationPolicy [ruleX, ruleY, ruleZ]], ())\<rparr>) \<and>
   \<not> registered KEYBOARD 3 storeXY \<and>
   registered KEYBOARD 3
     \<lparr>keyboardPartition = \<lparr>policyLists = [(1, [ruleX]), (2, [ruleY]), (3, [ruleZ])], nextId = 4\<rparr>,
      pointerPartition = \<lparr>policyLists = [], nextId = 1\<rparr>\<rparr>"
proof -
  let ?s1 = "\<lparr>keyboardPartition =
                \<lparr>policyLists = [(1, [ruleX]), (2, [ruleY]), (3, [ruleZ])], nextId = 4\<rparr>,
              pointerPartition = \<lparr>policyLists = [], nextId = 1\<rparr>\<rparr>"
  have master: "PolicyStore_getMasterPolicyList KEYBOARD storeXY = [ruleX, ruleY]"
    by (simp add: PolicyStore_getMasterPolicyList_def storeXY_def partitionOf_def)
  have fulfilled: "fst (installFunction accepting KEYBOARD m ()) = Inr ()"
    "snd (installFunction accepting KEYBOARD m ()) = ()"
    for m :: "keyboardEventPolicy list"
    by (simp_all add: installFunction_def accepting_def)
  have add: "PolicyStore_addPolicyList KEYBOARD [ruleZ] storeXY = (3, ?s1)"
    by (simp add: PolicyStore_addPolicyList_def storeXY_def partitionOf_def setPartition_def Let_def)
  have next_id: "nextId (partitionOf KEYBOARD storeXY) = 3"
    by (simp add: storeXY_def partitionOf_def)
  note claim = addPolicies_success_returns_allocated_id
    [where ps = PolicyStore and kind = KEYBOARD and policies = "[ruleZ]" and s = storeXY
       and ui = accepting and h = "()" and log = "[]"]
  from claim storeOk_storeXY
  have facts: "\<not> registered KEYBOARD (nextId (partitionOf KEYBOARD storeXY)) storeXY \<and>
      registered KEYBOARD (nextId (partitionOf KEYBOARD storeXY))
        (snd (PolicyStore_addPolicyList KEYBOARD [ruleZ] storeXY))"
    by blast
  from claim storeOk_storeXY fulfilled(1) [of "PolicyStore_getMasterPolicyList KEYBOARD storeXY @ [ruleZ]"]
  have run: "addPolicies PolicyStore (recording accepting) KEYBOARD [ruleZ]
      \<lparr>store = storeXY, photoshop = ([], ())\<rparr> =
    (Inr (nextId (partitionOf KEYBOARD storeXY)),
     \<lparr>store = snd (PolicyStore_addPolicyList KEYBOARD [ruleZ] storeXY),
      photoshop =
        ([] @ [installCall KEYBOARD (PolicyStore_getMasterPolicyList KEYBOARD storeXY @ [ruleZ])],
         snd (installFunction accepting KEYBOARD
                (PolicyStore_getMasterPolicyList KEYBOARD storeXY @ [ruleZ]) ()))\<rparr>)"
    by blast
  show ?thesis
    using storeOk_storeXY facts run
    by (simp add: master fulfilled add next_id installCall_def)
qed

text \<open>
  C4. When \<^verbatim>\<open>removePolicyList\<close> reports that it found no list, \<^verbatim>\<open>_removePolicies\<close> fails
  with the error "No policies found for id: " followed by the ID as JavaScript prints the
  number, whatever the commit flag, and makes no adapter call (first part, for every store
  and every adapter). On the policy store that is the case for every category and every
  ID that is not registered in the partition of the category, and the store and Photoshop
  are left as they were (second part). The message identifies the ID: two different IDs
  in the safe range of JavaScript integers give two different messages (third part).
\<close>

theorem removePolicies_unknown_id_fails:
  "(removePolicyList ps kind i t = (Inr False, t1)
    \<longrightarrow> removePolicies largeToString ps (recording ui) kind i commit \<lparr>store = t, photoshop = (log, h)\<rparr> =
          (Inl (Error (''No policies found for id: '' @ numberToString largeToString i)),
           \<lparr>store = t1, photoshop = (log, h)\<rparr>))
   \<and>
   (\<not> registered kind i s
    \<longrightarrow> removePolicies largeToString PolicyStore (recording ui) kind i commit \<lparr>store = s, photoshop = (log, h)\<rparr> =
          (Inl (Error (''No policies found for id: '' @ numberToString largeToString i)),
           \<lparr>store = s, photoshop = (log, h)\<rparr>))
   \<and>
   (\<forall>j. safeInteger i \<and> safeInteger j \<and>
        ''No policies found for id: '' @ numberToString largeToString j =
          ''No policies found for id: '' @ numberToString largeToString i \<longrightarrow> j = i)"
proof (intro conjI allI impI)
  assume "removePolicyList ps kind i t = (Inr False, t1)"
  then show "removePolicies largeToString ps (recording ui) kind i commit \<lparr>store = t, photoshop = (log, h)\<rparr> =
      (Inl (Error (''No policies found for id: '' @ numberToString largeToString i)),
       \<lparr>store = t1, photoshop = (log, h)\<rparr>)"
    by (simp add: removePolicies_unfold)
next
  assume "\<not> registered kind i s"
  then show "removePolicies largeToString PolicyStore (recording ui) kind i commit
      \<lparr>store = s, photoshop = (log, h)\<rparr> =
    (Inl (Error (''No policies found for id: '' @ numberToString largeToString i)),
     \<lparr>store = s, photoshop = (log, h)\<rparr>)"
    by (rule removePolicies_PolicyStore_unregistered)
next
  fix j
  assume a: "safeInteger i \<and> safeInteger j \<and>
    ''No policies found for id: '' @ numberToString largeToString j =
      ''No policies found for id: '' @ numberToString largeToString i"
  then have "numberToString largeToString j = numberToString largeToString i" by simp
  with a show "j = i" by (auto dest: numberToString_inj)
qed

theorem removePolicies_unknown_id_fails_witness:
  "\<not> registered POINTER 999 (initialStore :: keyboardEventPolicy storeState) \<and>
   removePolicyList PolicyStore POINTER 999 (initialStore :: keyboardEventPolicy storeState) =
     (Inr False, initialStore) \<and>
   removePolicies unknownRendering PolicyStore (recording accepting) POINTER 999 (Some True)
       \<lparr>store = (initialStore :: keyboardEventPolicy storeState), photoshop = ([], ())\<rparr> =
     (Inl (Error ''No policies found for id: 999''), \<lparr>store = initialStore, photoshop = ([], ())\<rparr>) \<and>
   safeInteger 998 \<and> safeInteger 999 \<and>
   ''No policies found for id: '' @ numberToString unknownRendering 998 \<noteq>
     ''No policies found for id: 999''"
proof -
  have absent: "\<not> registered POINTER 999 (initialStore :: keyboardEventPolicy storeState)"
    by (simp add: registered_def initialStore_def partitionOf_def)
  then have unchanged: "removePolicyList PolicyStore POINTER 999
      (initialStore :: keyboardEventPolicy storeState) = (Inr False, initialStore)"
    by (simp add: PolicyStore_fields remove_unregistered)
  have msg: "numberToString unknownRendering 999 = ''999''"
    by code_simp
  note claim = removePolicies_unknown_id_fails
    [of PolicyStore POINTER 999 "initialStore :: keyboardEventPolicy storeState" initialStore
        unknownRendering accepting "Some True" "[]" "()" initialStore]
  have safe: "safeInteger 998" "safeInteger 999"
    by (simp_all add: safeInteger_def MAX_SAFE_INTEGER_def)
  with claim have "''No policies found for id: '' @ numberToString unknownRendering 998 =
      ''No policies found for id: '' @ numberToString unknownRendering 999 \<longrightarrow> (998 :: int) = 999"
    by blast
  then have differ: "''No policies found for id: '' @ numberToString unknownRendering 998 \<noteq>
      ''No policies found for id: '' @ numberToString unknownRendering 999"
    by auto
  from claim absent have run: "removePolicies unknownRendering PolicyStore (recording accepting) POINTER 999 (Some True)
       \<lparr>store = (initialStore :: keyboardEventPolicy storeState), photoshop = ([], ())\<rparr> =
     (Inl (Error (''No policies found for id: '' @ numberToString unknownRendering 999)),
      \<lparr>store = initialStore, photoshop = ([], ())\<rparr>)"
    by blast
  show ?thesis
    using absent unchanged run differ safe by (simp add: msg)
qed

text \<open>
  C5. When \<^verbatim>\<open>removePolicyList\<close> reports that it removed the list, \<^verbatim>\<open>_removePolicies\<close> with
  a true commit flag makes exactly one adapter call, the install call of the category with
  the master list of the store after the removal, and settles as that call settles: a
  rejection goes to the caller as it is, and the store stays as the removal left it (first
  part, for every store and every adapter). On the policy store that is the case for every
  category and every registered ID; whatever the outcome of the call, the ID is no longer
  registered afterwards and the other lists of the category are kept: nothing is put back
  (second part).
\<close>

theorem removePolicies_commit_pushes_without_rollback:
  "(removePolicyList ps kind i t = (Inr True, t1)
    \<longrightarrow> removePolicies largeToString ps (recording ui) kind i (Some True) \<lparr>store = t, photoshop = (log, h)\<rparr> =
          (fst (installFunction ui kind (getMasterPolicyList ps kind t1) h),
           \<lparr>store = t1,
            photoshop = (log @ [installCall kind (getMasterPolicyList ps kind t1)],
                         snd (installFunction ui kind (getMasterPolicyList ps kind t1) h))\<rparr>))
   \<and>
   (registered kind i s
    \<longrightarrow> removePolicies largeToString PolicyStore (recording ui) kind i (Some True)
            \<lparr>store = s, photoshop = (log, h)\<rparr> =
          (fst (installFunction ui kind
                  (PolicyStore_getMasterPolicyList kind (snd (PolicyStore_removePolicyList kind i s))) h),
           \<lparr>store = snd (PolicyStore_removePolicyList kind i s),
            photoshop =
              (log @ [installCall kind
                        (PolicyStore_getMasterPolicyList kind (snd (PolicyStore_removePolicyList kind i s)))],
               snd (installFunction ui kind
                  (PolicyStore_getMasterPolicyList kind (snd (PolicyStore_removePolicyList kind i s))) h))\<rparr>) \<and>
        \<not> registered kind i (snd (PolicyStore_removePolicyList kind i s)) \<and>
        policyLists (partitionOf kind (snd (PolicyStore_removePolicyList kind i s))) =
          filter (\<lambda>e. fst e \<noteq> i) (policyLists (partitionOf kind s)))"
proof (rule conjI)
  show "removePolicyList ps kind i t = (Inr True, t1)
    \<longrightarrow> removePolicies largeToString ps (recording ui) kind i (Some True) \<lparr>store = t, photoshop = (log, h)\<rparr> =
          (fst (installFunction ui kind (getMasterPolicyList ps kind t1) h),
           \<lparr>store = t1,
            photoshop = (log @ [installCall kind (getMasterPolicyList ps kind t1)],
                         snd (installFunction ui kind (getMasterPolicyList ps kind t1) h))\<rparr>)"
    by (simp add: removePolicies_unfold truthy_def installFunction_recording)
qed (simp add: removePolicies_PolicyStore_commit truthy_def installFunction_recording
      unregistered_after_remove lists_after_remove)

theorem removePolicies_commit_pushes_without_rollback_witness:
  "registered KEYBOARD 1 storeXY \<and>
   removePolicyList PolicyStore KEYBOARD 1 storeXY =
     (Inr True, \<lparr>keyboardPartition = \<lparr>policyLists = [(2, [ruleY])], nextId = 3\<rparr>,
                 pointerPartition = \<lparr>policyLists = [], nextId = 1\<rparr>\<rparr>) \<and>
   removePolicies unknownRendering PolicyStore (recording (rejecting (Error ''install failed''))) KEYBOARD 1 (Some True)
       \<lparr>store = storeXY, photoshop = ([], ())\<rparr> =
     (Inl (Error ''install failed''),
      \<lparr>store = \<lparr>keyboardPartition = \<lparr>policyLists = [(2, [ruleY])], nextId = 3\<rparr>,
                pointerPartition = \<lparr>policyLists = [], nextId = 1\<rparr>\<rparr>,
       photoshop = ([SetKeyboardEventPropagationPolicy [ruleY]], ())\<rparr>) \<and>
   \<not> registered KEYBOARD 1
       \<lparr>keyboardPartition = \<lparr>policyLists = [(2, [ruleY])], nextId = 3\<rparr>,
        pointerPartition = \<lparr>policyLists = [], nextId = 1\<rparr>\<rparr>"
proof -
  have present: "registered KEYBOARD 1 storeXY"
    by (simp add: registered_def storeXY_def partitionOf_def)
  have master: "PolicyStore_getMasterPolicyList KEYBOARD
      \<lparr>keyboardPartition = \<lparr>policyLists = [(2, [ruleY])], nextId = 3\<rparr>,
       pointerPartition = \<lparr>policyLists = [], nextId = 1\<rparr>\<rparr> = [ruleY]"
    by (simp add: PolicyStore_getMasterPolicyList_def partitionOf_def)
  have rej: "installFunction (rejecting (Error ''install failed'')) KEYBOARD m () =
      (Inl (Error ''install failed''), ())" for m :: "keyboardEventPolicy list"
    by (simp add: installFunction_def rejecting_def)
  show ?thesis
    using removePolicies_commit_pushes_without_rollback
            [of PolicyStore KEYBOARD 1 storeXY
                "\<lparr>keyboardPartition = \<lparr>policyLists = [(2, [ruleY])], nextId = 3\<rparr>,
                  pointerPartition = \<lparr>policyLists = [], nextId = 1\<rparr>\<rparr>"
                unknownRendering "rejecting (Error ''install failed'')" "[]" "()" storeXY]
          present
    by (simp add: PolicyStore_fields removed_storeXY master rej installCall_def)
qed

text \<open>
  C6. When \<^verbatim>\<open>removePolicyList\<close> reports that it removed the list, \<^verbatim>\<open>_removePolicies\<close> with
  a false commit flag succeeds, makes no adapter call and leaves Photoshop as it was (first
  part, for every store and every adapter). On the policy store that is the case for every
  category and every registered ID, and the ID is no longer registered afterwards (second
  part).
\<close>

theorem removePolicies_without_commit_is_local:
  "(removePolicyList ps kind i t = (Inr True, t1)
    \<longrightarrow> removePolicies largeToString ps (recording ui) kind i (Some False) \<lparr>store = t, photoshop = (log, h)\<rparr> =
          (Inr (), \<lparr>store = t1, photoshop = (log, h)\<rparr>))
   \<and>
   (registered kind i s
    \<longrightarrow> removePolicies largeToString PolicyStore (recording ui) kind i (Some False)
            \<lparr>store = s, photoshop = (log, h)\<rparr> =
          (Inr (), \<lparr>store = snd (PolicyStore_removePolicyList kind i s), photoshop = (log, h)\<rparr>) \<and>
        \<not> registered kind i (snd (PolicyStore_removePolicyList kind i s)) \<and>
        policyLists (partitionOf kind (snd (PolicyStore_removePolicyList kind i s))) =
          filter (\<lambda>e. fst e \<noteq> i) (policyLists (partitionOf kind s)))"
proof (rule conjI)
  show "removePolicyList ps kind i t = (Inr True, t1)
    \<longrightarrow> removePolicies largeToString ps (recording ui) kind i (Some False) \<lparr>store = t, photoshop = (log, h)\<rparr> =
          (Inr (), \<lparr>store = t1, photoshop = (log, h)\<rparr>)"
    by (simp add: removePolicies_unfold truthy_def)
qed (simp add: removePolicies_PolicyStore_local truthy_def unregistered_after_remove
      lists_after_remove)

theorem removePolicies_without_commit_is_local_witness:
  "registered KEYBOARD 1 storeXY \<and>
   removePolicyList PolicyStore KEYBOARD 1 storeXY =
     (Inr True, \<lparr>keyboardPartition = \<lparr>policyLists = [(2, [ruleY])], nextId = 3\<rparr>,
                 pointerPartition = \<lparr>policyLists = [], nextId = 1\<rparr>\<rparr>) \<and>
   removePolicies unknownRendering PolicyStore (recording (rejecting (Error ''install failed''))) KEYBOARD 1 (Some False)
       \<lparr>store = storeXY, photoshop = ([], ())\<rparr> =
     (Inr (),
      \<lparr>store = \<lparr>keyboardPartition = \<lparr>policyLists = [(2, [ruleY])], nextId = 3\<rparr>,
                pointerPartition = \<lparr>policyLists = [], nextId = 1\<rparr>\<rparr>,
       photoshop = ([], ())\<rparr>)"
proof -
  have present: "registered KEYBOARD 1 storeXY"
    by (simp add: registered_def storeXY_def partitionOf_def)
  show ?thesis
    using removePolicies_without_commit_is_local
            [of PolicyStore KEYBOARD 1 storeXY
                "\<lparr>keyboardPartition = \<lparr>policyLists = [(2, [ruleY])], nextId = 3\<rparr>,
                  pointerPartition = \<lparr>policyLists = [], nextId = 1\<rparr>\<rparr>"
                unknownRendering "rejecting (Error ''install failed'')" "[]" "()" storeXY]
          present
    by (simp add: PolicyStore_fields removed_storeXY)
qed

text \<open>
  C7. The category decides the install function, for every store and adapter. An add of
  keyboard policies makes exactly one adapter call, \<^verbatim>\<open>setKeyboardEventPropagationPolicy\<close>,
  and an add of pointer policies exactly one, \<^verbatim>\<open>setPointerEventPropagationPolicy\<close>, whether
  the call is fulfilled or rejected. A committing remove that found its list does the
  same: the keyboard command calls the keyboard function once, the pointer command the
  pointer function once. No command calls the function of the other category.
\<close>

theorem category_selects_install_function:
  "fst (photoshop (snd (addKeyboardPoliciesCommand ps (recording ui) policies
          \<lparr>store = s, photoshop = (log, h)\<rparr>))) =
     log @ [SetKeyboardEventPropagationPolicy
              (getMasterPolicyList ps KEYBOARD (snd (addPolicyList ps KEYBOARD policies s)))] \<and>
   fst (photoshop (snd (addPointerPoliciesCommand ps (recording ui) policies
          \<lparr>store = s, photoshop = (log, h)\<rparr>))) =
     log @ [SetPointerEventPropagationPolicy
              (getMasterPolicyList ps POINTER (snd (addPolicyList ps POINTER policies s)))] \<and>
   (removePolicyList ps KEYBOARD i s = (Inr True, s1) \<longrightarrow>
      fst (photoshop (snd (removeKeyboardPoliciesCommand largeToString ps (recording ui) i (Some True)
             \<lparr>store = s, photoshop = (log, h)\<rparr>))) =
        log @ [SetKeyboardEventPropagationPolicy (getMasterPolicyList ps KEYBOARD s1)]) \<and>
   (removePolicyList ps POINTER i s = (Inr True, s1) \<longrightarrow>
      fst (photoshop (snd (removePointerPoliciesCommand largeToString ps (recording ui) i (Some True)
             \<lparr>store = s, photoshop = (log, h)\<rparr>))) =
        log @ [SetPointerEventPropagationPolicy (getMasterPolicyList ps POINTER s1)])"
proof (intro conjI impI)
  show "fst (photoshop (snd (addKeyboardPoliciesCommand ps (recording ui) policies
          \<lparr>store = s, photoshop = (log, h)\<rparr>))) =
     log @ [SetKeyboardEventPropagationPolicy
              (getMasterPolicyList ps KEYBOARD (snd (addPolicyList ps KEYBOARD policies s)))]"
    by (simp add: addKeyboardPoliciesCommand_def addPolicies_recording_log installCall_def)
  show "fst (photoshop (snd (addPointerPoliciesCommand ps (recording ui) policies
          \<lparr>store = s, photoshop = (log, h)\<rparr>))) =
     log @ [SetPointerEventPropagationPolicy
              (getMasterPolicyList ps POINTER (snd (addPolicyList ps POINTER policies s)))]"
    by (simp add: addPointerPoliciesCommand_def addPolicies_recording_log installCall_def)
next
  assume "removePolicyList ps KEYBOARD i s = (Inr True, s1)"
  then show "fst (photoshop (snd (removeKeyboardPoliciesCommand largeToString ps (recording ui) i (Some True)
             \<lparr>store = s, photoshop = (log, h)\<rparr>))) =
        log @ [SetKeyboardEventPropagationPolicy (getMasterPolicyList ps KEYBOARD s1)]"
    by (simp add: removeKeyboardPoliciesCommand_def removePolicies_recording_log truthy_def
        installCall_def)
next
  assume "removePolicyList ps POINTER i s = (Inr True, s1)"
  then show "fst (photoshop (snd (removePointerPoliciesCommand largeToString ps (recording ui) i (Some True)
             \<lparr>store = s, photoshop = (log, h)\<rparr>))) =
        log @ [SetPointerEventPropagationPolicy (getMasterPolicyList ps POINTER s1)]"
    by (simp add: removePointerPoliciesCommand_def removePolicies_recording_log truthy_def
        installCall_def)
qed

theorem category_selects_install_function_witness:
  "removePolicyList PolicyStore KEYBOARD 1 storeXY =
     (Inr True, \<lparr>keyboardPartition = \<lparr>policyLists = [(2, [ruleY])], nextId = 3\<rparr>,
                 pointerPartition = \<lparr>policyLists = [], nextId = 1\<rparr>\<rparr>) \<and>
   fst (photoshop (snd (removeKeyboardPoliciesCommand unknownRendering PolicyStore (recording accepting) 1 (Some True)
          \<lparr>store = storeXY, photoshop = ([], ())\<rparr>))) =
     [SetKeyboardEventPropagationPolicy [ruleY]] \<and>
   fst (photoshop (snd (addPointerPoliciesCommand PolicyStore (recording accepting) [ruleZ]
          \<lparr>store = storeXY, photoshop = ([], ())\<rparr>))) =
     [SetPointerEventPropagationPolicy [ruleZ]]"
proof -
  have removed: "removePolicyList PolicyStore KEYBOARD 1 storeXY =
     (Inr True, \<lparr>keyboardPartition = \<lparr>policyLists = [(2, [ruleY])], nextId = 3\<rparr>,
                 pointerPartition = \<lparr>policyLists = [], nextId = 1\<rparr>\<rparr>)"
    by (simp add: PolicyStore_fields removed_storeXY)
  have master: "getMasterPolicyList PolicyStore KEYBOARD
      \<lparr>keyboardPartition = \<lparr>policyLists = [(2, [ruleY])], nextId = 3\<rparr>,
       pointerPartition = \<lparr>policyLists = [], nextId = 1\<rparr>\<rparr> = [ruleY]"
    by (simp add: PolicyStore_fields PolicyStore_getMasterPolicyList_def partitionOf_def)
  have pointer: "getMasterPolicyList PolicyStore POINTER
      (snd (addPolicyList PolicyStore POINTER [ruleZ] storeXY)) = [ruleZ]"
    by (simp add: PolicyStore_fields PolicyStore_getMasterPolicyList_def add_result
        partitionOf_setPartition)
       (simp add: partitionOf_def storeXY_def)
  show ?thesis
    using category_selects_install_function
            [of PolicyStore accepting "[ruleZ]" storeXY "[]" "()" 1
                "\<lparr>keyboardPartition = \<lparr>policyLists = [(2, [ruleY])], nextId = 3\<rparr>,
                  pointerPartition = \<lparr>policyLists = [], nextId = 1\<rparr>\<rparr>"
                unknownRendering]
          removed
    by (simp add: master pointer)
qed

text \<open>
  C8. \<^verbatim>\<open>addKeydownPolicy\<close> builds one keyboard rule from its arguments: the action is
  always-propagate when \<^verbatim>\<open>propagate\<close> is true and never-propagate when it is false, the
  event kind is key-down, the key and the modifiers are those given. It hands the list of
  that one rule to \<^verbatim>\<open>addKeyboardPolicies\<close> and settles as that command does, so it resolves
  with the list ID that command returns; the one adapter call is the keyboard install call.
\<close>

theorem addKeydownPolicy_builds_one_keydown_rule:
  "addKeydownPolicyCommand ps ui True k mods st =
     addKeyboardPoliciesCommand ps ui [KeyboardEventPolicy ALWAYS_PROPAGATE KEY_DOWN mods k] st \<and>
   addKeydownPolicyCommand ps ui False k mods st =
     addKeyboardPoliciesCommand ps ui [KeyboardEventPolicy NEVER_PROPAGATE KEY_DOWN mods k] st \<and>
   fst (photoshop (snd (addKeydownPolicyCommand ps (recording ui') propagate k mods
          \<lparr>store = s, photoshop = (log, h)\<rparr>))) =
     log @ [SetKeyboardEventPropagationPolicy
              (getMasterPolicyList ps KEYBOARD
                 (snd (addPolicyList ps KEYBOARD
                    [KeyboardEventPolicy (if propagate then ALWAYS_PROPAGATE else NEVER_PROPAGATE)
                       KEY_DOWN mods k] s)))]"
  by (simp add: addKeydownPolicyCommand_def addKeyboardPoliciesCommand_def
      addPolicies_recording_log installCall_def)

theorem addKeydownPolicy_builds_one_keydown_rule_witness:
  "addKeydownPolicyCommand PolicyStore (recording accepting) False (KeyCode 27)
       \<lparr>shift = None, control = None, alt = None, command = None\<rparr>
       \<lparr>store = initialStore, photoshop = ([], ())\<rparr> =
     (Inr 1,
      \<lparr>store = \<lparr>keyboardPartition = \<lparr>policyLists = [(1, [ruleX])], nextId = 2\<rparr>,
                pointerPartition = \<lparr>policyLists = [], nextId = 1\<rparr>\<rparr>,
       photoshop = ([SetKeyboardEventPropagationPolicy [ruleX]], ())\<rparr>)"
proof -
  have "addKeyboardPoliciesCommand PolicyStore (recording accepting) [ruleX]
          \<lparr>store = initialStore, photoshop = ([], ())\<rparr> =
     (Inr 1,
      \<lparr>store = \<lparr>keyboardPartition = \<lparr>policyLists = [(1, [ruleX])], nextId = 2\<rparr>,
                pointerPartition = \<lparr>policyLists = [], nextId = 1\<rparr>\<rparr>,
       photoshop = ([SetKeyboardEventPropagationPolicy [ruleX]], ())\<rparr>)"
    by (simp add: addKeyboardPoliciesCommand_def addPolicies_def PolicyStore_def
        PolicyStore_addPolicyList_def PolicyStore_getMasterPolicyList_def recording_def
        logged_def accepting_def initialStore_def partitionOf_def setPartition_def Let_def)
  then show ?thesis
    using addKeydownPolicy_builds_one_keydown_rule
            [of PolicyStore "recording accepting" "KeyCode 27"
                "\<lparr>shift = None, control = None, alt = None, command = None\<rparr>"
                "\<lparr>store = initialStore, photoshop = ([], ())\<rparr>",
             THEN conjunct2, THEN conjunct1]
    by (simp add: ruleX_def)
qed

text \<open>
  C9. The startup command calls \<^verbatim>\<open>setKeyboardPropagationMode\<close> exactly once, with the
  descriptor whose default mode is never-propagate; it calls no other adapter function
  (so it installs no list), leaves the policy store as it was, and settles as that one
  call settles.
\<close>

theorem beforeStartup_sets_default_mode_once:
  "beforeStartupCommand (recording ui) \<lparr>store = s, photoshop = (log, h)\<rparr> =
     (fst (setKeyboardPropagationMode ui \<lparr>defaultMode = MODE_NEVER_PROPAGATE\<rparr> h),
      \<lparr>store = s,
       photoshop = (log @ [SetKeyboardPropagationMode \<lparr>defaultMode = MODE_NEVER_PROPAGATE\<rparr>],
                    snd (setKeyboardPropagationMode ui \<lparr>defaultMode = MODE_NEVER_PROPAGATE\<rparr> h))\<rparr>)"
  by (simp add: beforeStartupCommand_def recording_def logged_def Let_def split: prod.splits)

theorem beforeStartup_sets_default_mode_once_witness:
  "beforeStartupCommand (recording accepting) \<lparr>store = storeXY, photoshop = ([], ())\<rparr> =
     (Inr (),
      \<lparr>store = storeXY,
       photoshop = ([SetKeyboardPropagationMode \<lparr>defaultMode = MODE_NEVER_PROPAGATE\<rparr>], ())\<rparr>)"
  using beforeStartup_sets_default_mode_once [of accepting storeXY "[]" "()"]
  by (simp add: accepting_def)

text \<open>
  C10. With the commit argument omitted, \<^verbatim>\<open>removeKeyboardPolicies\<close> and
  \<^verbatim>\<open>removePointerPolicies\<close> do what they do with a false commit argument, for every store
  and adapter. On the policy store: for a registered ID the list is removed, the command
  succeeds and no adapter call is made; for an ID that is not registered the command
  fails with the error "No policies found for id: " followed by the ID as JavaScript
  prints the number, and nothing changes.
\<close>

theorem remove_with_commit_omitted:
  "removeKeyboardPoliciesCommand largeToString ps ui i None st =
     removeKeyboardPoliciesCommand largeToString ps ui i (Some False) st \<and>
   removePointerPoliciesCommand largeToString ps ui i None st =
     removePointerPoliciesCommand largeToString ps ui i (Some False) st \<and>
   (registered KEYBOARD i s \<longrightarrow>
      removeKeyboardPoliciesCommand largeToString PolicyStore (recording ui') i None
          \<lparr>store = s, photoshop = (log, h)\<rparr> =
        (Inr (), \<lparr>store = snd (PolicyStore_removePolicyList KEYBOARD i s), photoshop = (log, h)\<rparr>) \<and>
      \<not> registered KEYBOARD i (snd (PolicyStore_removePolicyList KEYBOARD i s))) \<and>
   (registered POINTER i s \<longrightarrow>
      removePointerPoliciesCommand largeToString PolicyStore (recording ui') i None
          \<lparr>store = s, photoshop = (log, h)\<rparr> =
        (Inr (), \<lparr>store = snd (PolicyStore_removePolicyList POINTER i s), photoshop = (log, h)\<rparr>) \<and>
      \<not> registered POINTER i (snd (PolicyStore_removePolicyList POINTER i s))) \<and>
   (\<not> registered KEYBOARD i s \<longrightarrow>
      removeKeyboardPoliciesCommand largeToString PolicyStore (recording ui') i None
          \<lparr>store = s, photoshop = (log, h)\<rparr> =
        (Inl (Error (''No policies found for id: '' @ numberToString largeToString i)),
         \<lparr>store = s, photoshop = (log, h)\<rparr>)) \<and>
   (\<not> registered POINTER i s \<longrightarrow>
      removePointerPoliciesCommand largeToString PolicyStore (recording ui') i None
          \<lparr>store = s, photoshop = (log, h)\<rparr> =
        (Inl (Error (''No policies found for id: '' @ numberToString largeToString i)),
         \<lparr>store = s, photoshop = (log, h)\<rparr>))"
proof -
  have same: "removePolicies largeToString ps ui kind i None st = removePolicies largeToString ps ui kind i (Some False) st"
    for kind
    by (simp add: removePolicies_def truthy_def split: prod.splits sum.splits)
  have falsy: "\<not> truthy None" by (simp add: truthy_def)
  show ?thesis
    by (simp add: removeKeyboardPoliciesCommand_def removePointerPoliciesCommand_def same
        removePolicies_PolicyStore_local [OF _ falsy] removePolicies_PolicyStore_unregistered
        unregistered_after_remove)
qed

theorem remove_with_commit_omitted_witness:
  "registered KEYBOARD 1 storeXY \<and> \<not> registered POINTER 1 storeXY \<and>
   removeKeyboardPoliciesCommand unknownRendering PolicyStore (recording (rejecting (Error ''install failed''))) 1 None
       \<lparr>store = storeXY, photoshop = ([], ())\<rparr> =
     (Inr (),
      \<lparr>store = \<lparr>keyboardPartition = \<lparr>policyLists = [(2, [ruleY])], nextId = 3\<rparr>,
                pointerPartition = \<lparr>policyLists = [], nextId = 1\<rparr>\<rparr>,
       photoshop = ([], ())\<rparr>) \<and>
   removePointerPoliciesCommand unknownRendering PolicyStore (recording (rejecting (Error ''install failed''))) 1 None
       \<lparr>store = storeXY, photoshop = ([], ())\<rparr> =
     (Inl (Error ''No policies found for id: 1''), \<lparr>store = storeXY, photoshop = ([], ())\<rparr>)"
proof -
  have present: "registered KEYBOARD 1 storeXY"
    by (simp add: registered_def storeXY_def partitionOf_def)
  have absent: "\<not> registered POINTER 1 storeXY"
    by (simp add: registered_def storeXY_def partitionOf_def)
  have msg: "numberToString unknownRendering 1 = ''1''"
    by code_simp
  show ?thesis
    using remove_with_commit_omitted
            [of unknownRendering PolicyStore "rejecting (Error ''install failed'')" 1
                "\<lparr>store = storeXY, photoshop = ()\<rparr>" storeXY
                "rejecting (Error ''install failed'')" "[]" "()"]
          present absent
    by (simp add: removed_storeXY msg)
qed

end
